theory Spec2Isabelle
  imports Complex_Main
begin

section \<open>SnapPosition: pointer capture and spatial aggregation\<close>

text \<open>
  A shallow embedding of \<^verbatim>\<open>src/processor.py\<close> (the aggregator and the hesitation
  ranking) and of \<^verbatim>\<open>src/logger.py\<close> (the capture handlers).

  Conventions of the embedding:
  \<^item> Python \<^verbatim>\<open>float\<close> values (timestamps, speeds, dwell seconds, the cells of both
    numpy grids) are real numbers: rounding error, infinities and NaN are not modelled.
  \<^item> Pixel coordinates and the cell size are Python \<^verbatim>\<open>int\<close>s, modelled as \<open>int\<close>.
  \<^item> A raised exception is the left injection of a sum type.
  \<^item> A numpy array is its shape together with its row-major buffer.
  \<^item> The lock of the logger is not modelled: the handlers are sequential functions
    on the logger's fields, and the wall clock and the platform hook are inputs.
\<close>

subsection \<open>Values shared by both modules\<close>

datatype py_error = ZeroDivisionError | IndexError | ListenerError

text \<open>An event dictionary with the keys \<^verbatim>\<open>x\<close>, \<^verbatim>\<open>y\<close>, \<^verbatim>\<open>speed\<close>, \<^verbatim>\<open>click\<close>, \<^verbatim>\<open>timestamp\<close>.\<close>

record event =
  e_x :: int
  e_y :: int
  e_speed :: real
  e_click :: bool
  e_timestamp :: real

text \<open>\<^verbatim>\<open>a / b\<close> on two ints: true division, raising on a zero divisor.\<close>

definition py_truediv :: "int \<Rightarrow> int \<Rightarrow> py_error + real" where
  "py_truediv a b = (if b = 0 then Inl ZeroDivisionError else Inr (real_of_int a / real_of_int b))"

text \<open>\<^verbatim>\<open>int(r)\<close> on a float: truncation towards zero.\<close>

definition py_int :: "real \<Rightarrow> int" where
  "py_int r = (if 0 \<le> r then \<lfloor>r\<rfloor> else \<lceil>r\<rceil>)"

subsection \<open>numpy arrays\<close>

record ndarray =
  shape :: "nat list"
  flat :: "real list"

text \<open>\<^verbatim>\<open>np.array([])\<close>: one axis of length zero.\<close>

definition np_empty :: ndarray where
  "np_empty = \<lparr>shape = [0], flat = []\<rparr>"

text \<open>\<^verbatim>\<open>np.zeros((h, w))\<close>.\<close>

definition np_zeros :: "int \<Rightarrow> int \<Rightarrow> ndarray" where
  "np_zeros h w = \<lparr>shape = [nat h, nat w], flat = replicate (nat h * nat w) 0\<rparr>"

text \<open>\<^verbatim>\<open>a.size\<close>: the product of the axis lengths.\<close>

definition np_size :: "ndarray \<Rightarrow> nat" where
  "np_size a = prod_list (shape a)"

definition np_sum :: "ndarray \<Rightarrow> real" where
  "np_sum a = sum_list (flat a)"

text \<open>
  An index along an axis of length \<open>n\<close>: numpy counts a negative index from the end
  and raises \<^verbatim>\<open>IndexError\<close> outside \<open>[-n, n)\<close>.
\<close>

definition np_index :: "nat \<Rightarrow> int \<Rightarrow> py_error + nat" where
  "np_index n i =
     (if 0 \<le> i \<and> i < int n then Inr (nat i)
      else if - int n \<le> i \<and> i < 0 then Inr (nat (int n + i))
      else Inl IndexError)"

text \<open>\<^verbatim>\<open>a[i, j] += v\<close> on a two-dimensional array.\<close>

definition np_add_at :: "ndarray \<Rightarrow> int \<Rightarrow> int \<Rightarrow> real \<Rightarrow> py_error + ndarray" where
  "np_add_at a i j v =
     (case shape a of
        [h, w] \<Rightarrow>
          (case np_index h i of
             Inl err \<Rightarrow> Inl err
           | Inr r \<Rightarrow>
               (case np_index w j of
                  Inl err \<Rightarrow> Inl err
                | Inr c \<Rightarrow> Inr (a\<lparr>flat := (flat a)[r * w + c := flat a ! (r * w + c) + v]\<rparr>)))
      | _ \<Rightarrow> Inl IndexError)"

text \<open>\<^verbatim>\<open>a[y, x]\<close> for indices in range, and \<^verbatim>\<open>np.unravel_index(idx, a.shape)\<close>.\<close>

definition np_get :: "ndarray \<Rightarrow> nat \<Rightarrow> nat \<Rightarrow> real" where
  "np_get a r c = flat a ! (r * (shape a ! 1) + c)"

definition np_unravel_index :: "nat \<Rightarrow> nat list \<Rightarrow> nat \<times> nat" where
  "np_unravel_index idx shp = (idx div (shp ! 1), idx mod (shp ! 1))"

text \<open>\<^verbatim>\<open>np.mean\<close>, \<^verbatim>\<open>np.max\<close>, \<^verbatim>\<open>np.min\<close> and \<^verbatim>\<open>np.std\<close> (the population deviation) of a
  non-empty one-dimensional array.\<close>

definition np_mean :: "real list \<Rightarrow> real" where
  "np_mean xs = sum_list xs / real (length xs)"

definition np_max :: "real list \<Rightarrow> real" where
  "np_max xs = Max (set xs)"

definition np_min :: "real list \<Rightarrow> real" where
  "np_min xs = Min (set xs)"

definition np_std :: "real list \<Rightarrow> real" where
  "np_std xs = sqrt (np_mean (map (\<lambda>v. \<bar>v - np_mean xs\<bar> ^ 2) xs))"

subsection \<open>processor.py: statistics\<close>

record stats =
  total_events :: nat
  total_clicks :: nat
  avg_speed :: real
  max_speed :: real
  min_speed :: real
  speed_std :: real
  duration :: real
  distance_traveled :: real
  acceleration_bursts :: nat

definition empty_stats :: stats where
  "empty_stats =
     \<lparr>total_events = 0, total_clicks = 0, avg_speed = 0, max_speed = 0, min_speed = 0,
      speed_std = 0, duration = 0, distance_traveled = 0, acceleration_bursts = 0\<rparr>"

text \<open>The body of the distance loop of \<^verbatim>\<open>_calculate_stats\<close>, for one index \<open>i\<close>.\<close>

definition distance_step :: "event list \<Rightarrow> nat \<Rightarrow> real \<Rightarrow> real" where
  "distance_step data i total_distance =
     (let dx = e_x (data ! i) - e_x (data ! (i - 1));
          dy = e_y (data ! i) - e_y (data ! (i - 1))
      in total_distance + sqrt (real_of_int (dx * dx + dy * dy)))"

definition calculate_stats :: "event list \<Rightarrow> real list \<Rightarrow> stats" where
  "calculate_stats data speeds =
     (if data = [] then empty_stats
      else
        let total_clicks = sum_list (map (\<lambda>e. 1) (filter e_click data));
            total_distance = fold (distance_step data) [1..<length data] 0;
            duration = (if length data \<ge> 2
                        then e_timestamp (last data) - e_timestamp (hd data) else 0)
        in \<lparr>total_events = length data,
            total_clicks = total_clicks,
            avg_speed = (if length speeds > 0 then np_mean speeds else 0),
            max_speed = (if length speeds > 0 then np_max speeds else 0),
            min_speed = (if length speeds > 0 then np_min speeds else 0),
            speed_std = (if length speeds > 0 then np_std speeds else 0),
            duration = duration,
            distance_traveled = total_distance,
            acceleration_bursts = 0\<rparr>)"

text \<open>\<^verbatim>\<open>_detect_acceleration\<close>: the indices whose speed differs from the previous
  event's by more than the threshold.\<close>

definition detect_acceleration :: "event list \<Rightarrow> real \<Rightarrow> nat list" where
  "detect_acceleration data threshold =
     filter (\<lambda>i. \<bar>e_speed (data ! i) - e_speed (data ! (i - 1))\<bar> > threshold)
       [1..<length data]"

subsection \<open>processor.py: process_data\<close>

record processed =
  heatmap :: ndarray
  hesitation_map :: ndarray
  speed_data :: "real list"
  click_positions :: "(int \<times> int) list"
  path :: "(int \<times> int) list"
  stats :: stats
  grid_size :: int
  bounds :: "int \<times> int \<times> int \<times> int"

text \<open>The variables the event loop updates. \<^verbatim>\<open>dwell_times\<close> is a
  \<^verbatim>\<open>defaultdict(float)\<close>: a total map with default 0.\<close>

record loop_vars =
  heatmap_v :: ndarray
  hesitation_map_v :: ndarray
  dwell_times_v :: "int \<times> int \<Rightarrow> real"
  click_positions_v :: "(int \<times> int) list"
  path_v :: "(int \<times> int) list"
  prev_timestamp_v :: "real option"

text \<open>\<^verbatim>\<open>max(0, min(int((c - lo) / grid_size), n - 1))\<close>: the clamped cell coordinate.\<close>

definition grid_coord :: "int \<Rightarrow> int \<Rightarrow> int \<Rightarrow> int \<Rightarrow> py_error + int" where
  "grid_coord c lo gsize n =
     (case py_truediv (c - lo) gsize of
        Inl err \<Rightarrow> Inl err
      | Inr q \<Rightarrow> Inr (max 0 (min (py_int q) (n - 1))))"

text \<open>The hesitation update of one event: nothing without a previous timestamp.\<close>

definition add_dwell ::
  "loop_vars \<Rightarrow> event \<Rightarrow> int \<Rightarrow> int \<Rightarrow> py_error + (int \<times> int \<Rightarrow> real) \<times> ndarray" where
  "add_dwell s ev grid_y grid_x =
     (case prev_timestamp_v s of
        None \<Rightarrow> Inr (dwell_times_v s, hesitation_map_v s)
      | Some prev \<Rightarrow>
          (let dwell = e_timestamp ev - prev in
           if e_speed ev < 100
           then (case np_add_at (hesitation_map_v s) grid_y grid_x dwell of
                   Inl err \<Rightarrow> Inl err
                 | Inr hes \<Rightarrow>
                     Inr ((dwell_times_v s)
                            ((grid_y, grid_x) := dwell_times_v s (grid_y, grid_x) + dwell),
                          hes))
           else Inr (dwell_times_v s, hesitation_map_v s)))"

text \<open>One iteration of \<^verbatim>\<open>for event in data\<close>.\<close>

definition process_event ::
  "int \<Rightarrow> int \<Rightarrow> int \<Rightarrow> int \<Rightarrow> int \<Rightarrow> loop_vars \<Rightarrow> event \<Rightarrow> py_error + loop_vars" where
  "process_event min_x min_y gsize grid_width grid_height s ev =
     (let x = e_x ev; y = e_y ev in
      case grid_coord x min_x gsize grid_width of
        Inl err \<Rightarrow> Inl err
      | Inr grid_x \<Rightarrow>
      (case grid_coord y min_y gsize grid_height of
        Inl err \<Rightarrow> Inl err
      | Inr grid_y \<Rightarrow>
      (case np_add_at (heatmap_v s) grid_y grid_x 1 of
        Inl err \<Rightarrow> Inl err
      | Inr hm \<Rightarrow>
      (case add_dwell s ev grid_y grid_x of
        Inl err \<Rightarrow> Inl err
      | Inr (dt, hes) \<Rightarrow>
          Inr \<lparr>heatmap_v = hm,
               hesitation_map_v = hes,
               dwell_times_v = dt,
               click_positions_v =
                 (if e_click ev then click_positions_v s @ [(x, y)] else click_positions_v s),
               path_v = path_v s @ [(x, y)],
               prev_timestamp_v = Some (e_timestamp ev)\<rparr>))))"

fun process_events ::
  "int \<Rightarrow> int \<Rightarrow> int \<Rightarrow> int \<Rightarrow> int \<Rightarrow> loop_vars \<Rightarrow> event list \<Rightarrow> py_error + loop_vars" where
  "process_events min_x min_y gsize grid_width grid_height s [] = Inr s"
| "process_events min_x min_y gsize grid_width grid_height s (ev # evs) =
     (case process_event min_x min_y gsize grid_width grid_height s ev of
        Inl err \<Rightarrow> Inl err
      | Inr s' \<Rightarrow> process_events min_x min_y gsize grid_width grid_height s' evs)"

definition process_data :: "event list \<Rightarrow> int \<Rightarrow> py_error + processed" where
  "process_data data gsize =
     (if data = [] then
        Inr \<lparr>heatmap = np_empty, hesitation_map = np_empty, speed_data = [],
             click_positions = [], path = [], stats = empty_stats,
             grid_size = gsize, bounds = (0, 0, 1920, 1080)\<rparr>
      else
        let x_coords = map e_x data;
            y_coords = map e_y data;
            speeds = map e_speed data;
            padding = 50;
            min_x = max 0 (Min (set x_coords) - padding);
            min_y = max 0 (Min (set y_coords) - padding);
            max_x = Max (set x_coords) + padding;
            max_y = Max (set y_coords) + padding
        in
        case py_truediv (max_x - min_x) gsize of
          Inl err \<Rightarrow> Inl err
        | Inr qx \<Rightarrow>
        (case py_truediv (max_y - min_y) gsize of
          Inl err \<Rightarrow> Inl err
        | Inr qy \<Rightarrow>
        (let grid_width = max 1 (py_int qx + 1);
             grid_height = max 1 (py_int qy + 1);
             init = \<lparr>heatmap_v = np_zeros grid_height grid_width,
                     hesitation_map_v = np_zeros grid_height grid_width,
                     dwell_times_v = (\<lambda>k. 0),
                     click_positions_v = [],
                     path_v = [],
                     prev_timestamp_v = None\<rparr>
         in
         case process_events min_x min_y gsize grid_width grid_height init data of
           Inl err \<Rightarrow> Inl err
         | Inr s \<Rightarrow>
             (let st = calculate_stats data speeds;
                  acceleration_events = detect_acceleration data 500;
                  st = st\<lparr>acceleration_bursts := length acceleration_events\<rparr>
              in Inr \<lparr>heatmap = heatmap_v s,
                      hesitation_map = hesitation_map_v s,
                      speed_data = speeds,
                      click_positions = click_positions_v s,
                      path = path_v s,
                      stats = st,
                      grid_size = gsize,
                      bounds = (min_x, min_y, max_x, max_y)\<rparr>))))"

subsection \<open>logger.py: MouseLogger\<close>

text \<open>
  The fields of a \<^verbatim>\<open>MouseLogger\<close> (\<^verbatim>\<open>self._data\<close>, \<^verbatim>\<open>self._listener\<close>, ...), without
  its lock. A \<^verbatim>\<open>mouse.Listener\<close> object is represented by whether its thread was
  started.
\<close>

datatype listener = Listener bool

record mouse_logger =
  m_data :: "event list"
  m_listener :: "listener option"
  m_is_running :: bool
  m_sample_rate :: real
  m_last_sample_time :: real
  m_last_position :: "int \<times> int"
  m_last_timestamp :: real

text \<open>\<^verbatim>\<open>__init__(self, sample_rate=0.05)\<close>.\<close>

definition default_sample_rate :: real where
  "default_sample_rate = 5 / 100"

definition init_logger :: "real \<Rightarrow> mouse_logger" where
  "init_logger sample_rate =
     \<lparr>m_data = [], m_listener = None, m_is_running = False, m_sample_rate = sample_rate,
      m_last_sample_time = 0, m_last_position = (0, 0), m_last_timestamp = 0\<rparr>"

text \<open>\<^verbatim>\<open>a / b\<close> on two floats raises on a zero divisor.\<close>

definition py_fdiv :: "real \<Rightarrow> real \<Rightarrow> py_error + real" where
  "py_fdiv a b = (if b = 0 then Inl ZeroDivisionError else Inr (a / b))"

text \<open>
  \<^verbatim>\<open>round(v, ndigits)\<close>: to the nearest multiple of \<open>10\<^sup>-\<^sup>n\<close>, a tie to the even one.
  The model rounds the exact real quotient. Python rounds the double nearest to it, so
  the two differ in the last digit where the exact quotient is a tie that no double
  represents: a move of 107 pixels in 40 seconds is recorded as 2.67 by the code and is
  2.68 here. The statements below use of the rounded speed only that it is not negative,
  which holds of both.
\<close>

definition round_half_even :: "real \<Rightarrow> int" where
  "round_half_even r =
     (let f = \<lfloor>r\<rfloor>; d = r - real_of_int f in
      if d < 1 / 2 then f
      else if d > 1 / 2 then f + 1
      else if even f then f else f + 1)"

definition py_round :: "real \<Rightarrow> nat \<Rightarrow> real" where
  "py_round v ndigits = real_of_int (round_half_even (v * 10 ^ ndigits)) / 10 ^ ndigits"

text \<open>\<^verbatim>\<open>_calculate_speed\<close>.\<close>

definition calculate_speed :: "mouse_logger \<Rightarrow> int \<Rightarrow> int \<Rightarrow> real \<Rightarrow> py_error + real" where
  "calculate_speed s x y timestamp =
     (if m_last_timestamp s = 0 then Inr 0
      else
        let time_delta = timestamp - m_last_timestamp s in
        if time_delta \<le> 0 then Inr 0
        else
          let dx = x - fst (m_last_position s);
              dy = y - snd (m_last_position s);
              distance = sqrt (real_of_int (dx * dx + dy * dy))
          in py_fdiv distance time_delta)"

text \<open>
  \<^verbatim>\<open>_on_move\<close>; \<open>current_time\<close> is what \<^verbatim>\<open>time.time()\<close> returns. An exception leaves
  the handler before any field is written.
\<close>

definition on_move :: "int \<Rightarrow> int \<Rightarrow> real \<Rightarrow> mouse_logger \<Rightarrow> py_error + mouse_logger" where
  "on_move x y current_time s =
     (if current_time - m_last_sample_time s < m_sample_rate s then Inr s
      else
        case calculate_speed s x y current_time of
          Inl err \<Rightarrow> Inl err
        | Inr speed \<Rightarrow>
            (let ev = \<lparr>e_x = x, e_y = y, e_speed = py_round speed 2, e_click = False,
                        e_timestamp = current_time\<rparr>
             in Inr (s\<lparr>m_data := m_data s @ [ev],
                       m_last_position := (x, y),
                       m_last_timestamp := current_time,
                       m_last_sample_time := current_time\<rparr>)))"

text \<open>\<^verbatim>\<open>_on_click\<close>.\<close>

datatype button = ButtonLeft | ButtonMiddle | ButtonRight

definition on_click ::
  "int \<Rightarrow> int \<Rightarrow> button \<Rightarrow> bool \<Rightarrow> real \<Rightarrow> mouse_logger \<Rightarrow> py_error + mouse_logger" where
  "on_click x y btn pressed current_time s =
     (if \<not> pressed then Inr s
      else
        case calculate_speed s x y current_time of
          Inl err \<Rightarrow> Inl err
        | Inr speed \<Rightarrow>
            (let ev = \<lparr>e_x = x, e_y = y, e_speed = py_round speed 2, e_click = True,
                        e_timestamp = current_time\<rparr>
             in Inr (s\<lparr>m_data := m_data s @ [ev],
                       m_last_position := (x, y),
                       m_last_timestamp := current_time\<rparr>)))"

text \<open>
  What the platform does with the listener that \<^verbatim>\<open>start\<close> creates: the hook is
  installed, or \<^verbatim>\<open>mouse.Listener(...)\<close> raises, or \<^verbatim>\<open>self._listener.start()\<close> raises.
\<close>

datatype hook = Installed | ConstructorRaises | StartRaises

text \<open>
  \<^verbatim>\<open>start\<close>: the exception that leaves the method, if any, and the fields afterwards.
  The assignments before the failing statement stay in effect.
\<close>

definition start :: "hook \<Rightarrow> mouse_logger \<Rightarrow> py_error option \<times> mouse_logger" where
  "start h s =
     (if m_is_running s then (None, s)
      else
        let s1 = s\<lparr>m_is_running := True, m_last_timestamp := 0, m_last_sample_time := 0\<rparr> in
        case h of
          ConstructorRaises \<Rightarrow> (Some ListenerError, s1)
        | StartRaises \<Rightarrow> (Some ListenerError, s1\<lparr>m_listener := Some (Listener False)\<rparr>)
        | Installed \<Rightarrow> (None, s1\<lparr>m_listener := Some (Listener True)\<rparr>))"

definition stop :: "mouse_logger \<Rightarrow> mouse_logger" where
  "stop s =
     (if \<not> m_is_running s then s
      else
        let s1 = s\<lparr>m_is_running := False\<rparr> in
        case m_listener s1 of
          None \<Rightarrow> s1
        | Some l \<Rightarrow> s1\<lparr>m_listener := None\<rparr>)"

definition get_data :: "mouse_logger \<Rightarrow> event list" where
  "get_data s = m_data s"

definition clear_data :: "mouse_logger \<Rightarrow> mouse_logger" where
  "clear_data s = s\<lparr>m_data := [], m_last_timestamp := 0, m_last_position := (0, 0)\<rparr>"

definition is_running :: "mouse_logger \<Rightarrow> bool" where
  "is_running s = m_is_running s"

definition event_count :: "mouse_logger \<Rightarrow> nat" where
  "event_count s = length (m_data s)"

text \<open>
  The notifications the listener thread delivers, each with the clock reading of its
  handler, and the handlers applied to a sequence of them: an exception ends the run.
\<close>

datatype notification = Move int int real | Click int int button bool real

fun handle :: "notification \<Rightarrow> mouse_logger \<Rightarrow> py_error + mouse_logger" where
  "handle (Move x y t) s = on_move x y t s"
| "handle (Click x y btn pressed t) s = on_click x y btn pressed t s"

fun deliver :: "mouse_logger \<Rightarrow> notification list \<Rightarrow> py_error + mouse_logger" where
  "deliver s [] = Inr s"
| "deliver s (n # ns) = (case handle n s of Inl err \<Rightarrow> Inl err | Inr s' \<Rightarrow> deliver s' ns)"

subsection \<open>processor.py: get_hesitation_zones\<close>

text \<open>\<^verbatim>\<open>xs[:n]\<close>: a negative \<open>n\<close> counts from the end.\<close>

definition py_slice_to :: "int \<Rightarrow> 'a list \<Rightarrow> 'a list" where
  "py_slice_to n xs = (if 0 \<le> n then take (nat n) xs else take (length xs - nat (- n)) xs)"

text \<open>
  \<^verbatim>\<open>np.argsort\<close> belongs to numpy, not to the repository, and is a parameter of the
  model. What numpy promises of \<^verbatim>\<open>np.argsort(a)\<close> is \<open>is_argsort\<close>: the indices of \<open>a\<close>,
  each once, in an order that makes the values ascend. Its default sort promises no
  order among equal values. \<open>stable_argsort\<close> is the argsort that keeps equal values in
  index order, as numpy's stable sorts do.
\<close>

definition is_argsort :: "real list \<Rightarrow> nat list \<Rightarrow> bool" where
  "is_argsort a idxs =
     (distinct idxs \<and> set idxs = {0..<length a} \<and> sorted (map (\<lambda>i. a ! i) idxs))"

definition stable_argsort :: "real list \<Rightarrow> nat list" where
  "stable_argsort a = sort_key (\<lambda>i. a ! i) [0..<length a]"

text \<open>The body of \<^verbatim>\<open>for idx in flat_indices\<close>.\<close>

definition zone_step ::
  "ndarray \<Rightarrow> nat \<Rightarrow> (nat \<times> nat \<times> real) list \<Rightarrow> (nat \<times> nat \<times> real) list" where
  "zone_step hm idx zones =
     (let (y, x) = np_unravel_index idx (shape hm);
          dwell = np_get hm y x
      in if dwell > 0 then zones @ [(x, y, dwell)] else zones)"

definition get_hesitation_zones ::
  "(real list \<Rightarrow> nat list) \<Rightarrow> processed \<Rightarrow> int \<Rightarrow> (nat \<times> nat \<times> real) list" where
  "get_hesitation_zones argsort processed_data top_n =
     (let hm = hesitation_map processed_data in
      if np_size hm = 0 then []
      else
        let flat_indices = py_slice_to top_n (rev (argsort (flat hm)))
        in fold (zone_step hm) flat_indices [])"

subsection \<open>Quantities the statements about process_data refer to\<close>

text \<open>
  The definitions below are not code of the repository: they name the intermediate
  values of \<^verbatim>\<open>process_data\<close> (the padded bounds, the grid dimensions, the cell of
  an event) so that the theorems can speak about them.
\<close>

text \<open>The padded bounds and the grid dimensions, as \<^verbatim>\<open>process_data\<close> computes them.\<close>

definition min_x_of :: "event list \<Rightarrow> int" where
  "min_x_of data = max 0 (Min (set (map e_x data)) - 50)"

definition min_y_of :: "event list \<Rightarrow> int" where
  "min_y_of data = max 0 (Min (set (map e_y data)) - 50)"

definition max_x_of :: "event list \<Rightarrow> int" where
  "max_x_of data = Max (set (map e_x data)) + 50"

definition max_y_of :: "event list \<Rightarrow> int" where
  "max_y_of data = Max (set (map e_y data)) + 50"

definition grid_width_of :: "event list \<Rightarrow> int \<Rightarrow> int" where
  "grid_width_of data gsize =
     max 1 (py_int (real_of_int (max_x_of data - min_x_of data) / real_of_int gsize) + 1)"

definition grid_height_of :: "event list \<Rightarrow> int \<Rightarrow> int" where
  "grid_height_of data gsize =
     max 1 (py_int (real_of_int (max_y_of data - min_y_of data) / real_of_int gsize) + 1)"

text \<open>The clamped cell coordinate when the division does not raise, and the row-major
  position of an event's cell in the buffer of a grid of width \<open>gw\<close>.\<close>

definition cell_coord :: "int \<Rightarrow> int \<Rightarrow> int \<Rightarrow> int \<Rightarrow> int" where
  "cell_coord c lo gsize n = max 0 (min (py_int (real_of_int (c - lo) / real_of_int gsize)) (n - 1))"

definition cell_index :: "int \<Rightarrow> int \<Rightarrow> int \<Rightarrow> int \<Rightarrow> int \<Rightarrow> event \<Rightarrow> nat" where
  "cell_index min_x min_y gsize gw gh ev =
     nat (cell_coord (e_y ev) min_y gsize gh) * nat gw + nat (cell_coord (e_x ev) min_x gsize gw)"

definition event_cell :: "event list \<Rightarrow> int \<Rightarrow> event \<Rightarrow> nat" where
  "event_cell data gsize =
     cell_index (min_x_of data) (min_y_of data) gsize (grid_width_of data gsize) (grid_height_of data gsize)"

text \<open>A grid of the allocated shape, and the effect of \<^verbatim>\<open>a[r, c] += v\<close> on the buffer.\<close>

definition grid_ok :: "int \<Rightarrow> int \<Rightarrow> ndarray \<Rightarrow> bool" where
  "grid_ok gh gw a = (shape a = [nat gh, nat gw] \<and> length (flat a) = nat gh * nat gw)"

definition bump :: "ndarray \<Rightarrow> nat \<Rightarrow> real \<Rightarrow> ndarray" where
  "bump a k v = a\<lparr>flat := (flat a)[k := flat a ! k + v]\<rparr>"

text \<open>
  The dwell one event adds to its own cell: the time since the previous event when
  there is one and the event's speed is below 100, nothing otherwise. \<open>dwell_into\<close>
  adds up what a run of events adds to cell \<open>k\<close>; \<open>pair_dwell\<close> is the same
  contribution read off a pair of consecutive events.
\<close>

definition dwell_of :: "real option \<Rightarrow> event \<Rightarrow> real" where
  "dwell_of prev ev = (case prev of None \<Rightarrow> 0 | Some p \<Rightarrow> if e_speed ev < 100 then e_timestamp ev - p else 0)"

fun dwell_into :: "(event \<Rightarrow> nat) \<Rightarrow> nat \<Rightarrow> real option \<Rightarrow> event list \<Rightarrow> real" where
  "dwell_into cell k prev [] = 0"
| "dwell_into cell k prev (ev # evs) =
     (if cell ev = k then dwell_of prev ev else 0) + dwell_into cell k (Some (e_timestamp ev)) evs"

definition pair_dwell :: "(event \<Rightarrow> nat) \<Rightarrow> nat \<Rightarrow> event \<times> event \<Rightarrow> real" where
  "pair_dwell cell k p =
     (if cell (snd p) = k \<and> e_speed (snd p) < 100
      then e_timestamp (snd p) - e_timestamp (fst p) else 0)"

text \<open>The value \<^verbatim>\<open>_calculate_speed\<close> returns, and the zone built from a flattened index.\<close>

definition speed_value :: "mouse_logger \<Rightarrow> int \<Rightarrow> int \<Rightarrow> real \<Rightarrow> real" where
  "speed_value s x y timestamp =
     (if m_last_timestamp s = 0 \<or> timestamp - m_last_timestamp s \<le> 0 then 0
      else sqrt (real_of_int ((x - fst (m_last_position s)) * (x - fst (m_last_position s))
                  + (y - snd (m_last_position s)) * (y - snd (m_last_position s))))
           / (timestamp - m_last_timestamp s))"

definition zone_of :: "ndarray \<Rightarrow> nat \<Rightarrow> nat \<times> nat \<times> real" where
  "zone_of hm i = (i mod (shape hm ! 1), i div (shape hm ! 1), flat hm ! i)"

text \<open>The order of a sort by key that keeps equal keys in index order.\<close>

definition key_then_index :: "(nat \<Rightarrow> real) \<Rightarrow> nat \<Rightarrow> nat \<Rightarrow> bool" where
  "key_then_index f i j = (f i < f j \<or> (f i = f j \<and> i < j))"

section \<open>The event loop\<close>

lemma py_truediv_nz: "b \<noteq> 0 \<Longrightarrow> py_truediv a b = Inr (real_of_int a / real_of_int b)"
  by (simp add: py_truediv_def)

lemma grid_coord_nz: "gsize \<noteq> 0 \<Longrightarrow> grid_coord c lo gsize n = Inr (cell_coord c lo gsize n)"
  by (simp add: grid_coord_def cell_coord_def py_truediv_def)

lemma cell_coord_range: "1 \<le> n \<Longrightarrow> 0 \<le> cell_coord c lo gsize n \<and> cell_coord c lo gsize n < n"
  by (simp add: cell_coord_def)

lemma cell_index_less:
  assumes "1 \<le> gw" "1 \<le> gh"
  shows "cell_index min_x min_y gsize gw gh ev < nat gh * nat gw"
proof -
  let ?r = "nat (cell_coord (e_y ev) min_y gsize gh)"
  let ?c = "nat (cell_coord (e_x ev) min_x gsize gw)"
  have r: "?r < nat gh" using cell_coord_range[OF assms(2), of "e_y ev" min_y gsize] by simp
  have c: "?c < nat gw" using cell_coord_range[OF assms(1), of "e_x ev" min_x gsize] by simp
  have "?r * nat gw + ?c < (?r + 1) * nat gw" using c by simp
  also have "\<dots> \<le> nat gh * nat gw"
  proof -
    have "?r + 1 \<le> nat gh" using r by linarith
    then show ?thesis by (rule mult_le_mono1)
  qed
  finally show ?thesis by (simp add: cell_index_def)
qed

lemma np_add_at_cell:
  assumes "grid_ok gh gw a" "1 \<le> gw" "1 \<le> gh"
  shows "np_add_at a (cell_coord cy min_y gsize gh) (cell_coord cx min_x gsize gw) v =
     Inr (a\<lparr>flat := (flat a)[nat (cell_coord cy min_y gsize gh) * nat gw + nat (cell_coord cx min_x gsize gw)
         := flat a ! (nat (cell_coord cy min_y gsize gh) * nat gw + nat (cell_coord cx min_x gsize gw)) + v]\<rparr>)"
  using assms cell_coord_range[OF assms(2), of cx min_x gsize] cell_coord_range[OF assms(3), of cy min_y gsize]
  by (simp add: np_add_at_def grid_ok_def np_index_def)

lemma grid_ok_bump: "grid_ok gh gw a \<Longrightarrow> grid_ok gh gw (bump a k v)"
  by (simp add: grid_ok_def bump_def)

lemma process_event_nz:
  assumes "gsize \<noteq> 0" "1 \<le> gw" "1 \<le> gh" "grid_ok gh gw (heatmap_v s)" "grid_ok gh gw (hesitation_map_v s)"
  shows "\<exists>s'. process_event min_x min_y gsize gw gh s ev = Inr s'
     \<and> heatmap_v s' = bump (heatmap_v s) (cell_index min_x min_y gsize gw gh ev) 1
     \<and> hesitation_map_v s' = bump (hesitation_map_v s) (cell_index min_x min_y gsize gw gh ev) (dwell_of (prev_timestamp_v s) ev)
     \<and> click_positions_v s' = click_positions_v s @ (if e_click ev then [(e_x ev, e_y ev)] else [])
     \<and> path_v s' = path_v s @ [(e_x ev, e_y ev)]
     \<and> prev_timestamp_v s' = Some (e_timestamp ev)"
  using assms
  by (auto simp add: process_event_def grid_coord_nz np_add_at_cell add_dwell_def Let_def bump_def cell_index_def dwell_of_def split: option.splits)

lemma sum_list_add_at:
  "k < length xs \<Longrightarrow> sum_list (xs[k := xs ! k + v]) = sum_list xs + (v::real)"
proof (induction xs arbitrary: k)
  case Nil
  then show ?case by simp
next
  case (Cons a xs)
  then show ?case by (cases k) simp_all
qed

lemma np_sum_bump: "k < length (flat a) \<Longrightarrow> np_sum (bump a k v) = np_sum a + v"
  by (simp add: np_sum_def bump_def sum_list_add_at)

lemma flat_bump_nth:
  "j < length (flat a) \<Longrightarrow> flat (bump a k v) ! j = flat a ! j + (if j = k then v else 0)"
  by (simp add: bump_def nth_list_update)

lemma process_events_nz:
  assumes "gsize \<noteq> 0" "1 \<le> gw" "1 \<le> gh"
  shows "grid_ok gh gw (heatmap_v s) \<Longrightarrow> grid_ok gh gw (hesitation_map_v s) \<Longrightarrow>
    \<exists>s'. process_events min_x min_y gsize gw gh s evs = Inr s'
     \<and> grid_ok gh gw (heatmap_v s') \<and> grid_ok gh gw (hesitation_map_v s')
     \<and> np_sum (heatmap_v s') = np_sum (heatmap_v s) + real (length evs)
     \<and> (\<forall>k < nat gh * nat gw. flat (heatmap_v s') ! k = flat (heatmap_v s) ! k
            + real (length (filter (\<lambda>e. cell_index min_x min_y gsize gw gh e = k) evs)))
     \<and> (\<forall>k < nat gh * nat gw. flat (hesitation_map_v s') ! k = flat (hesitation_map_v s) ! k
            + dwell_into (cell_index min_x min_y gsize gw gh) k (prev_timestamp_v s) evs)
     \<and> click_positions_v s' = click_positions_v s @ map (\<lambda>e. (e_x e, e_y e)) (filter e_click evs)
     \<and> path_v s' = path_v s @ map (\<lambda>e. (e_x e, e_y e)) evs"
proof (induction evs arbitrary: s)
  case Nil
  then show ?case by simp
next
  case (Cons ev evs)
  let ?c = "cell_index min_x min_y gsize gw gh"
  obtain s1 where s1: "process_event min_x min_y gsize gw gh s ev = Inr s1"
    and h1: "heatmap_v s1 = bump (heatmap_v s) (?c ev) 1"
    and d1: "hesitation_map_v s1 = bump (hesitation_map_v s) (?c ev) (dwell_of (prev_timestamp_v s) ev)"
    and c1: "click_positions_v s1 = click_positions_v s @ (if e_click ev then [(e_x ev, e_y ev)] else [])"
    and p1: "path_v s1 = path_v s @ [(e_x ev, e_y ev)]"
    and t1: "prev_timestamp_v s1 = Some (e_timestamp ev)"
    using process_event_nz[OF assms Cons.prems, of min_x min_y ev] by blast
  have ok1: "grid_ok gh gw (heatmap_v s1)" "grid_ok gh gw (hesitation_map_v s1)"
    using Cons.prems h1 d1 by (simp_all add: grid_ok_bump)
  have lt: "?c ev < nat gh * nat gw" using assms(2,3) by (rule cell_index_less)
  have len: "length (flat (heatmap_v s)) = nat gh * nat gw" "length (flat (hesitation_map_v s)) = nat gh * nat gw"
    using Cons.prems by (simp_all add: grid_ok_def)
  obtain s' where s': "process_events min_x min_y gsize gw gh s1 evs = Inr s'"
    and ok': "grid_ok gh gw (heatmap_v s')" "grid_ok gh gw (hesitation_map_v s')"
    and sum': "np_sum (heatmap_v s') = np_sum (heatmap_v s1) + real (length evs)"
    and cnt': "\<forall>k < nat gh * nat gw. flat (heatmap_v s') ! k = flat (heatmap_v s1) ! k
            + real (length (filter (\<lambda>e. ?c e = k) evs))"
    and dw': "\<forall>k < nat gh * nat gw. flat (hesitation_map_v s') ! k = flat (hesitation_map_v s1) ! k
            + dwell_into ?c k (prev_timestamp_v s1) evs"
    and c': "click_positions_v s' = click_positions_v s1 @ map (\<lambda>e. (e_x e, e_y e)) (filter e_click evs)"
    and p': "path_v s' = path_v s1 @ map (\<lambda>e. (e_x e, e_y e)) evs"
    using Cons.IH[OF ok1] by blast
  have A: "process_events min_x min_y gsize gw gh s (ev # evs) = Inr s'"
    using s1 s' by simp
  have B: "np_sum (heatmap_v s') = np_sum (heatmap_v s) + real (length (ev # evs))"
    using sum' h1 lt len by (simp add: np_sum_bump)
  have C: "\<forall>k < nat gh * nat gw. flat (heatmap_v s') ! k = flat (heatmap_v s) ! k
            + real (length (filter (\<lambda>e. ?c e = k) (ev # evs)))"
    using cnt' h1 len by (auto simp add: flat_bump_nth)
  have D: "\<forall>k < nat gh * nat gw. flat (hesitation_map_v s') ! k = flat (hesitation_map_v s) ! k
            + dwell_into ?c k (prev_timestamp_v s) (ev # evs)"
    using dw' d1 t1 len by (auto simp add: flat_bump_nth)
  have E: "click_positions_v s' = click_positions_v s @ map (\<lambda>e. (e_x e, e_y e)) (filter e_click (ev # evs))"
    using c' c1 by simp
  have F: "path_v s' = path_v s @ map (\<lambda>e. (e_x e, e_y e)) (ev # evs)"
    using p' p1 by simp
  show ?case using A ok' B C D E F by blast
qed

lemma grid_ok_zeros: "grid_ok gh gw (np_zeros gh gw)"
  by (simp add: grid_ok_def np_zeros_def)

lemma np_sum_zeros: "np_sum (np_zeros gh gw) = 0"
  by (simp add: np_sum_def np_zeros_def sum_list_replicate)

lemma flat_zeros_nth: "k < nat gh * nat gw \<Longrightarrow> flat (np_zeros gh gw) ! k = 0"
  by (simp add: np_zeros_def)

lemma process_data_nz:
  assumes "data \<noteq> []" "gsize \<noteq> 0"
  shows "\<exists>r. process_data data gsize = Inr r
     \<and> shape (heatmap r) = [nat (grid_height_of data gsize), nat (grid_width_of data gsize)]
     \<and> shape (hesitation_map r) = [nat (grid_height_of data gsize), nat (grid_width_of data gsize)]
     \<and> length (flat (heatmap r)) = nat (grid_height_of data gsize) * nat (grid_width_of data gsize)
     \<and> length (flat (hesitation_map r)) = nat (grid_height_of data gsize) * nat (grid_width_of data gsize)
     \<and> np_sum (heatmap r) = real (length data)
     \<and> (\<forall>k < nat (grid_height_of data gsize) * nat (grid_width_of data gsize).
           flat (heatmap r) ! k = real (length (filter (\<lambda>e. event_cell data gsize e = k) data)))
     \<and> (\<forall>k < nat (grid_height_of data gsize) * nat (grid_width_of data gsize).
           flat (hesitation_map r) ! k = dwell_into (event_cell data gsize) k None data)
     \<and> speed_data r = map e_speed data
     \<and> click_positions r = map (\<lambda>e. (e_x e, e_y e)) (filter e_click data)
     \<and> path r = map (\<lambda>e. (e_x e, e_y e)) data
     \<and> stats r = (calculate_stats data (map e_speed data))
                    \<lparr>acceleration_bursts := length (detect_acceleration data 500)\<rparr>
     \<and> grid_size r = gsize
     \<and> bounds r = (min_x_of data, min_y_of data, max_x_of data, max_y_of data)"
proof -
  let ?gw = "grid_width_of data gsize" and ?gh = "grid_height_of data gsize"
  let ?init = "\<lparr>heatmap_v = np_zeros ?gh ?gw, hesitation_map_v = np_zeros ?gh ?gw,
      dwell_times_v = (\<lambda>k. 0), click_positions_v = [], path_v = [], prev_timestamp_v = None\<rparr>"
  have gw: "1 \<le> ?gw" and gh: "1 \<le> ?gh"
    by (simp_all add: grid_width_of_def grid_height_of_def)
  have ok: "grid_ok ?gh ?gw (heatmap_v ?init)" "grid_ok ?gh ?gw (hesitation_map_v ?init)"
    by (simp_all add: grid_ok_zeros)
  obtain s' where s': "process_events (min_x_of data) (min_y_of data) gsize ?gw ?gh ?init data = Inr s'"
    and ok': "grid_ok ?gh ?gw (heatmap_v s')" "grid_ok ?gh ?gw (hesitation_map_v s')"
    and sum': "np_sum (heatmap_v s') = np_sum (heatmap_v ?init) + real (length data)"
    and cnt': "\<forall>k < nat ?gh * nat ?gw. flat (heatmap_v s') ! k = flat (heatmap_v ?init) ! k
            + real (length (filter (\<lambda>e. cell_index (min_x_of data) (min_y_of data) gsize ?gw ?gh e = k) data))"
    and dw': "\<forall>k < nat ?gh * nat ?gw. flat (hesitation_map_v s') ! k = flat (hesitation_map_v ?init) ! k
            + dwell_into (cell_index (min_x_of data) (min_y_of data) gsize ?gw ?gh) k (prev_timestamp_v ?init) data"
    and c': "click_positions_v s' = click_positions_v ?init @ map (\<lambda>e. (e_x e, e_y e)) (filter e_click data)"
    and p': "path_v s' = path_v ?init @ map (\<lambda>e. (e_x e, e_y e)) data"
    using process_events_nz[OF assms(2) gw gh ok, of "min_x_of data" "min_y_of data" data] by blast
  have run: "process_data data gsize =
      Inr \<lparr>heatmap = heatmap_v s', hesitation_map = hesitation_map_v s',
           speed_data = map e_speed data, click_positions = click_positions_v s',
           path = path_v s',
           stats = (calculate_stats data (map e_speed data))
                    \<lparr>acceleration_bursts := length (detect_acceleration data 500)\<rparr>,
           grid_size = gsize,
           bounds = (min_x_of data, min_y_of data, max_x_of data, max_y_of data)\<rparr>"
    using assms s'
    by (simp add: process_data_def py_truediv_nz Let_def min_x_of_def min_y_of_def max_x_of_def
        max_y_of_def grid_width_of_def grid_height_of_def)
  show ?thesis
    unfolding run using ok' sum' cnt' dw' c' p'
    by (simp add: grid_ok_def np_sum_zeros flat_zeros_nth event_cell_def)
qed

lemma dwell_into_Some:
  "dwell_into cell k (Some (e_timestamp a)) evs = sum_list (map (pair_dwell cell k) (zip (a # evs) evs))"
  by (induction evs arbitrary: a) (simp_all add: pair_dwell_def dwell_of_def)

lemma dwell_into_None:
  "dwell_into cell k None data = sum_list (map (pair_dwell cell k) (zip data (tl data)))"
  by (cases data) (simp_all add: dwell_into_Some dwell_of_def)

lemma dwell_into_nonneg:
  "sorted (map e_timestamp evs) \<Longrightarrow> (\<forall>e \<in> set evs. t \<le> e_timestamp e) \<Longrightarrow>
     0 \<le> dwell_into cell k (Some t) evs"
  by (induction evs arbitrary: t) (auto simp add: dwell_of_def)

lemma dwell_into_None_nonneg:
  "sorted (map e_timestamp data) \<Longrightarrow> 0 \<le> dwell_into cell k None data"
  by (cases data) (simp_all add: dwell_into_nonneg dwell_of_def)

lemma np_size_2d: "shape a = [h, w] \<Longrightarrow> np_size a = h * w"
  by (simp add: np_size_def)

lemma sum_list_ones: "sum_list (map (\<lambda>e. Suc 0) xs) = length xs"
  by (induction xs) simp_all

section \<open>Properties of the aggregator\<close>

text \<open>
  C2. Aggregating the empty stream raises nothing, whatever the cell size, and returns
  the canonical empty result: both grids are \<^verbatim>\<open>np.array([])\<close> with size zero, the speed,
  click and path lists are empty, every field of the statistics is zero, and the bounds
  are \<open>(0, 0, 1920, 1080)\<close>.
\<close>

theorem process_data_empty:
  "\<exists>r. process_data [] gsize = Inr r
     \<and> heatmap r = np_empty \<and> np_size (heatmap r) = 0 \<and> flat (heatmap r) = []
     \<and> hesitation_map r = np_empty \<and> np_size (hesitation_map r) = 0
     \<and> flat (hesitation_map r) = []
     \<and> speed_data r = [] \<and> click_positions r = [] \<and> path r = []
     \<and> total_events (stats r) = 0 \<and> total_clicks (stats r) = 0
     \<and> avg_speed (stats r) = 0 \<and> max_speed (stats r) = 0 \<and> min_speed (stats r) = 0
     \<and> speed_std (stats r) = 0 \<and> duration (stats r) = 0
     \<and> distance_traveled (stats r) = 0 \<and> acceleration_bursts (stats r) = 0
     \<and> grid_size r = gsize
     \<and> bounds r = (0, 0, 1920, 1080)"
  by (simp add: process_data_def np_empty_def np_size_def empty_stats_def)

lemmas proc_eval = process_data_def py_truediv_def py_int_def np_zeros_def np_add_at_def
  np_index_def grid_coord_def add_dwell_def process_event_def Let_def

text \<open>
  C1. Whenever the stream is not empty (and the cell size is not zero, where the first
  division raises), \<^verbatim>\<open>process_data\<close> returns, and the cells of the heatmap add up
  to the number of events. Each event is counted once, in the cell its clamped
  coordinates select: cell \<open>k\<close> holds the number of events whose cell is \<open>k\<close>, every
  event's cell lies inside the buffer, and the clamping puts every coordinate into
  \<open>[0, grid_width - 1]\<close> and \<open>[0, grid_height - 1]\<close>.
\<close>

theorem heatmap_sum_is_event_count:
  assumes "data \<noteq> []" and "gsize \<noteq> 0"
  shows "\<exists>r. process_data data gsize = Inr r
     \<and> np_sum (heatmap r) = real (length data)
     \<and> (\<forall>e \<in> set data. event_cell data gsize e < np_size (heatmap r))
     \<and> (\<forall>k < np_size (heatmap r).
           flat (heatmap r) ! k = real (length (filter (\<lambda>e. event_cell data gsize e = k) data)))
     \<and> (\<forall>c. \<exists>g. grid_coord c (min_x_of data) gsize (grid_width_of data gsize) = Inr g
            \<and> 0 \<le> g \<and> g \<le> grid_width_of data gsize - 1)
     \<and> (\<forall>c. \<exists>g. grid_coord c (min_y_of data) gsize (grid_height_of data gsize) = Inr g
            \<and> 0 \<le> g \<and> g \<le> grid_height_of data gsize - 1)"
proof -
  let ?gw = "grid_width_of data gsize" and ?gh = "grid_height_of data gsize"
  have gw: "1 \<le> ?gw" and gh: "1 \<le> ?gh"
    by (simp_all add: grid_width_of_def grid_height_of_def)
  obtain r where r: "process_data data gsize = Inr r"
    and shp: "shape (heatmap r) = [nat ?gh, nat ?gw]"
    and tot: "np_sum (heatmap r) = real (length data)"
    and cnt: "\<forall>k < nat ?gh * nat ?gw.
           flat (heatmap r) ! k = real (length (filter (\<lambda>e. event_cell data gsize e = k) data))"
    using process_data_nz[OF assms] by blast
  have sz: "np_size (heatmap r) = nat ?gh * nat ?gw"
    using shp by (rule np_size_2d)
  have inb: "\<forall>e \<in> set data. event_cell data gsize e < np_size (heatmap r)"
    by (simp add: sz event_cell_def cell_index_less[OF gw gh])
  have cx: "\<forall>c. \<exists>g. grid_coord c (min_x_of data) gsize ?gw = Inr g \<and> 0 \<le> g \<and> g \<le> ?gw - 1"
    using cell_coord_range[OF gw] by (simp add: grid_coord_nz[OF assms(2)])
  have cy: "\<forall>c. \<exists>g. grid_coord c (min_y_of data) gsize ?gh = Inr g \<and> 0 \<le> g \<and> g \<le> ?gh - 1"
    using cell_coord_range[OF gh] by (simp add: grid_coord_nz[OF assms(2)])
  show ?thesis
  proof (intro exI conjI)
    show "process_data data gsize = Inr r" by (rule r)
    show "np_sum (heatmap r) = real (length data)" by (rule tot)
    show "\<forall>e \<in> set data. event_cell data gsize e < np_size (heatmap r)" by (rule inb)
    show "\<forall>k < np_size (heatmap r).
           flat (heatmap r) ! k = real (length (filter (\<lambda>e. event_cell data gsize e = k) data))"
      using cnt by (simp add: sz)
    show "\<forall>c. \<exists>g. grid_coord c (min_x_of data) gsize ?gw = Inr g \<and> 0 \<le> g \<and> g \<le> ?gw - 1"
      by (rule cx)
    show "\<forall>c. \<exists>g. grid_coord c (min_y_of data) gsize ?gh = Inr g \<and> 0 \<le> g \<and> g \<le> ?gh - 1"
      by (rule cy)
  qed
qed

text \<open>The theorem at a two-event stream with a negative coordinate, cell size 50.\<close>

theorem heatmap_sum_is_event_count_witness:
  "[\<lparr>e_x = - 200, e_y = 30, e_speed = 0, e_click = False, e_timestamp = 1\<rparr>,
    \<lparr>e_x = 400, e_y = 900, e_speed = 120, e_click = True, e_timestamp = 2\<rparr>] \<noteq> []
   \<and> (50::int) \<noteq> 0
   \<and> (\<exists>r. process_data
     [\<lparr>e_x = - 200, e_y = 30, e_speed = 0, e_click = False, e_timestamp = 1\<rparr>,
      \<lparr>e_x = 400, e_y = 900, e_speed = 120, e_click = True, e_timestamp = 2\<rparr>] 50 = Inr r
     \<and> np_sum (heatmap r) = 2)"
proof -
  let ?d = "[\<lparr>e_x = - 200, e_y = 30, e_speed = 0, e_click = False, e_timestamp = 1\<rparr>,
    \<lparr>e_x = 400, e_y = 900, e_speed = 120, e_click = True, e_timestamp = 2\<rparr>]"
  have h1: "?d \<noteq> []" by simp
  have h2: "(50::int) \<noteq> 0" by simp
  obtain r where "process_data ?d 50 = Inr r" and "np_sum (heatmap r) = real (length ?d)"
    using heatmap_sum_is_event_count[OF h1 h2] by blast
  then show ?thesis by simp
qed

text \<open>
  C9. Aggregating a stream of one event returns (for a cell size other than zero), and the
  statistics have duration 0, distance travelled 0 and no acceleration burst.
\<close>

theorem single_event_stats:
  assumes "gsize \<noteq> 0"
  shows "\<exists>r. process_data [ev] gsize = Inr r
     \<and> total_events (stats r) = 1
     \<and> duration (stats r) = 0
     \<and> distance_traveled (stats r) = 0
     \<and> acceleration_bursts (stats r) = 0"
proof -
  have ne: "[ev] \<noteq> []" by simp
  obtain r where r: "process_data [ev] gsize = Inr r"
    and st: "stats r = (calculate_stats [ev] (map e_speed [ev]))
                    \<lparr>acceleration_bursts := length (detect_acceleration [ev] 500)\<rparr>"
    using process_data_nz[OF ne assms] by blast
  show ?thesis using r st
    by (simp add: calculate_stats_def detect_acceleration_def)
qed

text \<open>The theorem at one click event, cell size 50.\<close>

theorem single_event_stats_witness:
  "(50::int) \<noteq> 0
   \<and> (\<exists>r. process_data [\<lparr>e_x = 7, e_y = 9, e_speed = 250, e_click = True, e_timestamp = 3\<rparr>] 50 = Inr r
     \<and> duration (stats r) = 0 \<and> distance_traveled (stats r) = 0
     \<and> acceleration_bursts (stats r) = 0)"
proof -
  have h: "(50::int) \<noteq> 0" by simp
  show ?thesis
    using single_event_stats[OF h, of "\<lparr>e_x = 7, e_y = 9, e_speed = 250, e_click = True, e_timestamp = 3\<rparr>"]
    by auto
qed

text \<open>
  C10. For every stream the result is consistent with it: the path holds the \<open>(x, y)\<close>
  of every event in order, the speed list the speed of every event in order, the click
  positions the \<open>(x, y)\<close> of the click events in order; \<open>total_events\<close> is the length
  of the stream and \<open>total_clicks\<close> the length of the click-position list.
\<close>

theorem result_consistent:
  assumes "data = [] \<or> gsize \<noteq> 0"
  shows "\<exists>r. process_data data gsize = Inr r
     \<and> path r = map (\<lambda>e. (e_x e, e_y e)) data
     \<and> speed_data r = map e_speed data
     \<and> click_positions r = map (\<lambda>e. (e_x e, e_y e)) (filter e_click data)
     \<and> length (path r) = length data
     \<and> length (speed_data r) = length data
     \<and> total_events (stats r) = length data
     \<and> total_clicks (stats r) = length (filter e_click data)
     \<and> length (click_positions r) = total_clicks (stats r)"
proof (cases "data = []")
  case True
  then show ?thesis by (simp add: process_data_def empty_stats_def)
next
  case False
  with assms have nz: "gsize \<noteq> 0" by simp
  obtain r where r: "process_data data gsize = Inr r"
    and sp: "speed_data r = map e_speed data"
    and cl: "click_positions r = map (\<lambda>e. (e_x e, e_y e)) (filter e_click data)"
    and pa: "path r = map (\<lambda>e. (e_x e, e_y e)) data"
    and st: "stats r = (calculate_stats data (map e_speed data))
                    \<lparr>acceleration_bursts := length (detect_acceleration data 500)\<rparr>"
    using process_data_nz[OF False nz] by blast
  have te: "total_events (stats r) = length data"
    using st False by (simp add: calculate_stats_def Let_def)
  have tc: "total_clicks (stats r) = length (filter e_click data)"
    using st False by (simp add: calculate_stats_def Let_def sum_list_ones)
  show ?thesis using r sp cl pa te tc by simp
qed

text \<open>The theorem at the three-event scenario of the specification.\<close>

theorem result_consistent_witness:
  "(50::int) \<noteq> 0
   \<and> (\<exists>r. process_data
     [\<lparr>e_x = 0, e_y = 0, e_speed = 0, e_click = False, e_timestamp = 0\<rparr>,
      \<lparr>e_x = 100, e_y = 0, e_speed = 100, e_click = False, e_timestamp = 1\<rparr>,
      \<lparr>e_x = 100, e_y = 0, e_speed = 0, e_click = True, e_timestamp = 101 / 100\<rparr>] 50 = Inr r
     \<and> path r = [(0, 0), (100, 0), (100, 0)]
     \<and> speed_data r = [0, 100, 0]
     \<and> click_positions r = [(100, 0)]
     \<and> total_events (stats r) = 3
     \<and> total_clicks (stats r) = 1)"
proof -
  let ?d = "[\<lparr>e_x = 0, e_y = 0, e_speed = 0, e_click = False, e_timestamp = 0\<rparr>,
      \<lparr>e_x = 100, e_y = 0, e_speed = 100, e_click = False, e_timestamp = 1\<rparr>,
      \<lparr>e_x = 100, e_y = 0, e_speed = 0, e_click = True, e_timestamp = 101 / 100\<rparr>]"
  have h: "?d = [] \<or> (50::int) \<noteq> 0" by simp
  obtain r where "process_data ?d 50 = Inr r"
     and "path r = map (\<lambda>e. (e_x e, e_y e)) ?d"
     and "speed_data r = map e_speed ?d"
     and "click_positions r = map (\<lambda>e. (e_x e, e_y e)) (filter e_click ?d)"
     and "total_events (stats r) = length ?d"
     and "total_clicks (stats r) = length (filter e_click ?d)"
    using result_consistent[OF h] by blast
  then show ?thesis by simp
qed

text \<open>
  C4, as stated, fails: a stream whose clock steps back (two clicks at the same place,
  stamped 10 and then 9) leaves \<open>-1\<close> in the cell of the second event. The capture
  handlers record such a stream when \<^verbatim>\<open>time.time()\<close> steps back between two clicks.
\<close>

theorem hesitation_negative_counterexample:
  "process_data
     [\<lparr>e_x = 0, e_y = 0, e_speed = 0, e_click = True, e_timestamp = 10\<rparr>,
      \<lparr>e_x = 0, e_y = 0, e_speed = 0, e_click = True, e_timestamp = 9\<rparr>] 50 =
   Inr \<lparr>heatmap = \<lparr>shape = [2, 2], flat = [2, 0, 0, 0]\<rparr>,
      hesitation_map = \<lparr>shape = [2, 2], flat = [- 1, 0, 0, 0]\<rparr>,
      speed_data = [0, 0], click_positions = [(0, 0), (0, 0)], path = [(0, 0), (0, 0)],
      stats = \<lparr>total_events = 2, total_clicks = 2, avg_speed = 0, max_speed = 0, min_speed = 0,
         speed_std = 0, duration = - 1, distance_traveled = 0, acceleration_bursts = 0\<rparr>,
      grid_size = 50, bounds = (0, 0, 50, 50)\<rparr>"
  by (simp add: proc_eval eval_nat_numeral calculate_stats_def detect_acceleration_def
      distance_step_def np_mean_def np_max_def np_min_def np_std_def)

text \<open>
  C4, amended. For every stream (at a cell size other than zero when it is not empty)
  \<^verbatim>\<open>process_data\<close> returns, and cell \<open>k\<close> of the hesitation map holds the sum, over the
  pairs of consecutive events of that stream, of the time between the two when the second
  lies in cell \<open>k\<close> and is slower than 100: the first event adds nothing, and nothing but
  the stream passed to the call enters the sum. When the timestamps of the stream do not
  decrease, every cell is at least 0.
\<close>

theorem hesitation_accumulates:
  assumes "data = [] \<or> gsize \<noteq> 0"
  shows "\<exists>r. process_data data gsize = Inr r
     \<and> (\<forall>k < np_size (hesitation_map r).
           flat (hesitation_map r) ! k =
             sum_list (map (pair_dwell (event_cell data gsize) k) (zip data (tl data))))
     \<and> (sorted (map e_timestamp data) \<longrightarrow> (\<forall>v \<in> set (flat (hesitation_map r)). 0 \<le> v))"
proof (cases "data = []")
  case True
  then show ?thesis by (simp add: process_data_def np_empty_def np_size_def)
next
  case False
  with assms have nz: "gsize \<noteq> 0" by simp
  let ?gw = "grid_width_of data gsize" and ?gh = "grid_height_of data gsize"
  obtain r where r: "process_data data gsize = Inr r"
    and shp: "shape (hesitation_map r) = [nat ?gh, nat ?gw]"
    and len: "length (flat (hesitation_map r)) = nat ?gh * nat ?gw"
    and dw: "\<forall>k < nat ?gh * nat ?gw.
           flat (hesitation_map r) ! k = dwell_into (event_cell data gsize) k None data"
    using process_data_nz[OF False nz] by blast
  have sz: "np_size (hesitation_map r) = nat ?gh * nat ?gw"
    using shp by (rule np_size_2d)
  have cells: "\<forall>k < np_size (hesitation_map r).
       flat (hesitation_map r) ! k =
         sum_list (map (pair_dwell (event_cell data gsize) k) (zip data (tl data)))"
    unfolding sz using dw by (simp add: dwell_into_None)
  have pos: "sorted (map e_timestamp data) \<longrightarrow> (\<forall>v \<in> set (flat (hesitation_map r)). 0 \<le> v)"
  proof (intro impI ballI)
    fix v assume srt: "sorted (map e_timestamp data)" and "v \<in> set (flat (hesitation_map r))"
    then obtain k where k: "k < nat ?gh * nat ?gw" and v: "v = flat (hesitation_map r) ! k"
      using len by (auto simp add: in_set_conv_nth)
    show "0 \<le> v" using k v dw dwell_into_None_nonneg[OF srt] by simp
  qed
  show ?thesis
  proof (intro exI conjI)
    show "process_data data gsize = Inr r" by (rule r)
    show "\<forall>k < np_size (hesitation_map r).
       flat (hesitation_map r) ! k =
         sum_list (map (pair_dwell (event_cell data gsize) k) (zip data (tl data)))"
      by (rule cells)
    show "sorted (map e_timestamp data) \<longrightarrow> (\<forall>v \<in> set (flat (hesitation_map r)). 0 \<le> v)"
      by (rule pos)
  qed
qed

lemmas cell_eval = pair_dwell_def event_cell_def cell_index_def cell_coord_def min_x_of_def
  min_y_of_def max_x_of_def max_y_of_def grid_width_of_def grid_height_of_def py_int_def

text \<open>
  The theorem at two streams of two clicks at the same place: stamped 9 and then 10, the
  cell holds 1 and no cell is negative; stamped 10 and then 9, the sum over the one pair
  is \<open>-1\<close>, and that is what the cell holds.
\<close>

theorem hesitation_accumulates_witness:
  "sorted (map e_timestamp
     [\<lparr>e_x = 0, e_y = 0, e_speed = 0, e_click = True, e_timestamp = 9\<rparr>,
      \<lparr>e_x = 0, e_y = 0, e_speed = 0, e_click = True, e_timestamp = 10\<rparr>])
   \<and> (50::int) \<noteq> 0
   \<and> (\<exists>r. process_data
     [\<lparr>e_x = 0, e_y = 0, e_speed = 0, e_click = True, e_timestamp = 9\<rparr>,
      \<lparr>e_x = 0, e_y = 0, e_speed = 0, e_click = True, e_timestamp = 10\<rparr>] 50 = Inr r
     \<and> hesitation_map r = \<lparr>shape = [2, 2], flat = [1, 0, 0, 0]\<rparr>
     \<and> 0 \<le> flat (hesitation_map r) ! 0)
   \<and> sum_list (map (pair_dwell (event_cell
          [\<lparr>e_x = 0, e_y = 0, e_speed = 0, e_click = True, e_timestamp = 10\<rparr>,
           \<lparr>e_x = 0, e_y = 0, e_speed = 0, e_click = True, e_timestamp = 9\<rparr>] 50) 0)
        (zip [\<lparr>e_x = 0, e_y = 0, e_speed = 0, e_click = True, e_timestamp = 10\<rparr>,
              \<lparr>e_x = 0, e_y = 0, e_speed = 0, e_click = True, e_timestamp = 9\<rparr>]
             (tl [\<lparr>e_x = 0, e_y = 0, e_speed = 0, e_click = True, e_timestamp = 10\<rparr>,
                  \<lparr>e_x = 0, e_y = 0, e_speed = 0, e_click = True, e_timestamp = 9\<rparr>]))) = - 1
   \<and> (\<exists>r. process_data
     [\<lparr>e_x = 0, e_y = 0, e_speed = 0, e_click = True, e_timestamp = 10\<rparr>,
      \<lparr>e_x = 0, e_y = 0, e_speed = 0, e_click = True, e_timestamp = 9\<rparr>] 50 = Inr r
     \<and> np_size (hesitation_map r) = 4
     \<and> flat (hesitation_map r) ! 0 = - 1)"
proof -
  let ?d = "[\<lparr>e_x = 0, e_y = 0, e_speed = 0, e_click = True, e_timestamp = 9\<rparr>,
      \<lparr>e_x = 0, e_y = 0, e_speed = 0, e_click = True, e_timestamp = 10\<rparr>]"
  let ?b = "[\<lparr>e_x = 0, e_y = 0, e_speed = 0, e_click = True, e_timestamp = 10\<rparr>,
      \<lparr>e_x = 0, e_y = 0, e_speed = 0, e_click = True, e_timestamp = 9\<rparr>]"
  have h1: "sorted (map e_timestamp ?d)" by simp
  have h2: "?d = [] \<or> (50::int) \<noteq> 0" by simp
  have h3: "?b = [] \<or> (50::int) \<noteq> 0" by simp
  have ev: "process_data ?d 50 = Inr \<lparr>heatmap = \<lparr>shape = [2, 2], flat = [2, 0, 0, 0]\<rparr>,
      hesitation_map = \<lparr>shape = [2, 2], flat = [1, 0, 0, 0]\<rparr>,
      speed_data = [0, 0], click_positions = [(0, 0), (0, 0)], path = [(0, 0), (0, 0)],
      stats = \<lparr>total_events = 2, total_clicks = 2, avg_speed = 0, max_speed = 0, min_speed = 0,
         speed_std = 0, duration = 1, distance_traveled = 0, acceleration_bursts = 0\<rparr>,
      grid_size = 50, bounds = (0, 0, 50, 50)\<rparr>"
    by (simp add: proc_eval eval_nat_numeral calculate_stats_def detect_acceleration_def
        distance_step_def np_mean_def np_max_def np_min_def np_std_def)
  obtain r where r: "process_data ?d 50 = Inr r"
    and nn: "sorted (map e_timestamp ?d) \<longrightarrow> (\<forall>v \<in> set (flat (hesitation_map r)). 0 \<le> v)"
    using hesitation_accumulates[OF h2] by blast
  from r ev have hm: "hesitation_map r = \<lparr>shape = [2, 2], flat = [1, 0, 0, 0]\<rparr>" by auto
  from nn h1 hm have p0: "0 \<le> flat (hesitation_map r) ! 0" by simp
  have first: "\<exists>r. process_data ?d 50 = Inr r
     \<and> hesitation_map r = \<lparr>shape = [2, 2], flat = [1, 0, 0, 0]\<rparr>
     \<and> 0 \<le> flat (hesitation_map r) ! 0"
    using r hm p0 by blast
  have sm: "sum_list (map (pair_dwell (event_cell ?b 50) 0) (zip ?b (tl ?b))) = - 1"
    by (simp add: cell_eval)
  have shb: "\<exists>q. process_data ?b 50 = Inr q \<and> shape (hesitation_map q) = [2, 2]"
    by (simp add: proc_eval eval_nat_numeral)
  obtain q where q: "process_data ?b 50 = Inr q"
    and eqn: "\<forall>k < np_size (hesitation_map q).
           flat (hesitation_map q) ! k =
             sum_list (map (pair_dwell (event_cell ?b 50) k) (zip ?b (tl ?b)))"
    using hesitation_accumulates[OF h3] by blast
  from shb q have sq: "shape (hesitation_map q) = [2, 2]" by auto
  then have nq: "np_size (hesitation_map q) = 4" by (simp add: np_size_def)
  then have "flat (hesitation_map q) ! 0 = - 1" using eqn sm by simp
  then have second: "\<exists>r. process_data ?b 50 = Inr r
     \<and> np_size (hesitation_map r) = 4 \<and> flat (hesitation_map r) ! 0 = - 1"
    using q nq by blast
  show ?thesis using h1 first sm second by simp
qed

section \<open>Properties of the capture handlers\<close>

lemma round_half_even_nonneg: "0 \<le> r \<Longrightarrow> 0 \<le> round_half_even r"
  by (simp add: round_half_even_def Let_def)

lemma py_round_nonneg: "0 \<le> v \<Longrightarrow> 0 \<le> py_round v n"
  by (simp add: py_round_def round_half_even_nonneg)

lemma calculate_speed_eq: "calculate_speed s x y t = Inr (speed_value s x y t)"
  by (simp add: calculate_speed_def speed_value_def py_fdiv_def Let_def)

lemma speed_value_nonneg: "0 \<le> speed_value s x y t"
  by (simp add: speed_value_def)

lemma on_move_result:
  "on_move x y t s =
     Inr (if t - m_last_sample_time s < m_sample_rate s then s
          else s\<lparr>m_data := m_data s @ [\<lparr>e_x = x, e_y = y, e_speed = py_round (speed_value s x y t) 2,
                                         e_click = False, e_timestamp = t\<rparr>],
                 m_last_position := (x, y), m_last_timestamp := t, m_last_sample_time := t\<rparr>)"
  by (simp add: on_move_def calculate_speed_eq)

lemma on_click_result:
  "on_click x y btn pressed t s =
     Inr (if \<not> pressed then s
          else s\<lparr>m_data := m_data s @ [\<lparr>e_x = x, e_y = y, e_speed = py_round (speed_value s x y t) 2,
                                         e_click = True, e_timestamp = t\<rparr>],
                 m_last_position := (x, y), m_last_timestamp := t\<rparr>)"
  by (simp add: on_click_def calculate_speed_eq)

lemma handle_speeds:
  assumes "\<forall>e \<in> set (m_data s). 0 \<le> e_speed e"
  shows "\<exists>s'. handle n s = Inr s' \<and> (\<forall>e \<in> set (m_data s'). 0 \<le> e_speed e)"
proof (cases n)
  case (Move x y t)
  then show ?thesis using assms
    by (simp add: on_move_result py_round_nonneg speed_value_nonneg)
next
  case (Click x y btn pressed t)
  then show ?thesis using assms
    by (simp add: on_click_result py_round_nonneg speed_value_nonneg)
qed

lemma deliver_speeds:
  "\<forall>e \<in> set (m_data s). 0 \<le> e_speed e \<Longrightarrow>
     \<exists>s'. deliver s ns = Inr s' \<and> (\<forall>e \<in> set (m_data s'). 0 \<le> e_speed e)"
proof (induction ns arbitrary: s)
  case Nil
  then show ?case by simp
next
  case (Cons n ns)
  obtain s1 where s1: "handle n s = Inr s1" and ok: "\<forall>e \<in> set (m_data s1). 0 \<le> e_speed e"
    using handle_speeds[OF Cons.prems] by blast
  show ?case using Cons.IH[OF ok] s1 by simp
qed

lemma sqrt_25: "sqrt 25 = 5"
proof -
  have "sqrt ((5::real) ^ 2) = 5" by (simp only: real_sqrt_abs)
  then show ?thesis by simp
qed

lemmas logger_eval = on_move_def on_click_def calculate_speed_def py_fdiv_def py_round_def
  round_half_even_def init_logger_def start_def stop_def Let_def

text \<open>
  The handlers stamp each event with the wall clock and keep the order of arrival, so a
  clock that steps back between two clicks leaves a stream whose timestamps decrease: the
  second click is recorded with speed 0 and the earlier timestamp.
\<close>

lemma clock_step_back_is_recorded:
  "deliver (snd (start Installed (init_logger default_sample_rate)))
     [Click 0 0 ButtonLeft True 10, Click 0 0 ButtonLeft True 9] =
   Inr \<lparr>m_data = [\<lparr>e_x = 0, e_y = 0, e_speed = 0, e_click = True, e_timestamp = 10\<rparr>,
                   \<lparr>e_x = 0, e_y = 0, e_speed = 0, e_click = True, e_timestamp = 9\<rparr>],
        m_listener = Some (Listener True), m_is_running = True, m_sample_rate = 5 / 100,
        m_last_sample_time = 0, m_last_position = (0, 0), m_last_timestamp = 9\<rparr>"
  by (simp add: logger_eval default_sample_rate_def)

text \<open>
  C8. \<^verbatim>\<open>_calculate_speed\<close> never raises: it returns 0 when the last timestamp is 0 (no
  event since the logger was created or started) or when the elapsed time is not
  positive, and otherwise the Euclidean distance from the last position divided by the
  elapsed time, so the division is only reached with a positive divisor. The result is
  never negative, and neither is the speed of any event the handlers record: a logger
  whose events all have a speed of at least 0 keeps that property through every sequence
  of move and click notifications, none of which raises.
\<close>

theorem calculate_speed_guarded:
  "calculate_speed s x y t =
     Inr (if m_last_timestamp s = 0 \<or> t - m_last_timestamp s \<le> 0 then 0
          else sqrt (real_of_int ((x - fst (m_last_position s)) * (x - fst (m_last_position s))
                       + (y - snd (m_last_position s)) * (y - snd (m_last_position s))))
               / (t - m_last_timestamp s))
   \<and> (\<exists>v. calculate_speed s x y t = Inr v \<and> 0 \<le> v)
   \<and> calculate_speed (init_logger r) x y t = Inr 0
   \<and> ((\<forall>e \<in> set (m_data s). 0 \<le> e_speed e) \<longrightarrow>
        (\<exists>s'. deliver s ns = Inr s' \<and> (\<forall>e \<in> set (m_data s'). 0 \<le> e_speed e)))"
proof (intro conjI impI)
  show "calculate_speed s x y t =
     Inr (if m_last_timestamp s = 0 \<or> t - m_last_timestamp s \<le> 0 then 0
          else sqrt (real_of_int ((x - fst (m_last_position s)) * (x - fst (m_last_position s))
                       + (y - snd (m_last_position s)) * (y - snd (m_last_position s))))
               / (t - m_last_timestamp s))"
    by (simp add: calculate_speed_eq speed_value_def)
  show "\<exists>v. calculate_speed s x y t = Inr v \<and> 0 \<le> v"
    by (simp add: calculate_speed_eq speed_value_nonneg)
  show "calculate_speed (init_logger r) x y t = Inr 0"
    by (simp add: calculate_speed_def init_logger_def)
  assume "\<forall>e \<in> set (m_data s). 0 \<le> e_speed e"
  then show "\<exists>s'. deliver s ns = Inr s' \<and> (\<forall>e \<in> set (m_data s'). 0 \<le> e_speed e)"
    by (rule deliver_speeds)
qed

text \<open>The theorem at a started logger that receives a move and then a click one second
  later, five pixels away: the click is recorded with speed 5.\<close>

theorem calculate_speed_guarded_witness:
  "m_data (snd (start Installed (init_logger default_sample_rate))) = []
   \<and> deliver (snd (start Installed (init_logger default_sample_rate)))
        [Move 0 0 1, Click 3 4 ButtonLeft True 2] =
      Inr \<lparr>m_data = [\<lparr>e_x = 0, e_y = 0, e_speed = 0, e_click = False, e_timestamp = 1\<rparr>,
                      \<lparr>e_x = 3, e_y = 4, e_speed = 5, e_click = True, e_timestamp = 2\<rparr>],
           m_listener = Some (Listener True), m_is_running = True, m_sample_rate = 5 / 100,
           m_last_sample_time = 1, m_last_position = (3, 4), m_last_timestamp = 2\<rparr>
   \<and> calculate_speed
        \<lparr>m_data = [\<lparr>e_x = 0, e_y = 0, e_speed = 0, e_click = False, e_timestamp = 1\<rparr>],
         m_listener = Some (Listener True), m_is_running = True, m_sample_rate = 5 / 100,
         m_last_sample_time = 1, m_last_position = (0, 0), m_last_timestamp = 1\<rparr> 3 4 2 = Inr 5
   \<and> calculate_speed
        \<lparr>m_data = [\<lparr>e_x = 0, e_y = 0, e_speed = 0, e_click = False, e_timestamp = 1\<rparr>],
         m_listener = Some (Listener True), m_is_running = True, m_sample_rate = 5 / 100,
         m_last_sample_time = 1, m_last_position = (0, 0), m_last_timestamp = 1\<rparr> 3 4 1 = Inr 0"
proof -
  let ?s = "snd (start Installed (init_logger default_sample_rate))"
  let ?ns = "[Move 0 0 1, Click 3 4 ButtonLeft True 2]"
  let ?m = "\<lparr>m_data = [\<lparr>e_x = 0, e_y = 0, e_speed = 0, e_click = False, e_timestamp = 1\<rparr>],
         m_listener = Some (Listener True), m_is_running = True, m_sample_rate = 5 / 100,
         m_last_sample_time = 1, m_last_position = (0, 0), m_last_timestamp = 1\<rparr>"
  have h: "m_data ?s = []"
    by (simp add: logger_eval)
  have run: "deliver ?s ?ns =
      Inr \<lparr>m_data = [\<lparr>e_x = 0, e_y = 0, e_speed = 0, e_click = False, e_timestamp = 1\<rparr>,
                      \<lparr>e_x = 3, e_y = 4, e_speed = 5, e_click = True, e_timestamp = 2\<rparr>],
           m_listener = Some (Listener True), m_is_running = True, m_sample_rate = 5 / 100,
           m_last_sample_time = 1, m_last_position = (3, 4), m_last_timestamp = 2\<rparr>"
    using calculate_speed_guarded[of ?s 0 0 1 0 ?ns] h
    by (simp add: logger_eval default_sample_rate_def sqrt_25)
  have sp: "calculate_speed ?m 3 4 2 = Inr 5"
    using calculate_speed_guarded[of ?m 3 4 2 0 "[]"]
    by (simp add: sqrt_25)
  have sq: "calculate_speed ?m 3 4 1 = Inr 0"
    using calculate_speed_guarded[of ?m 3 4 1 0 "[]"]
    by simp
  show ?thesis using h run sp sq by simp
qed

text \<open>
  C7. A move notification that arrives less than the sample interval after the last
  accepted move sample leaves the logger as it is: no event, no field changed. Any other
  move is recorded and sets the last sample time. A release is ignored; a press is always
  recorded as a click event and sets the last position and the last timestamp, but leaves
  the last sample time and the sample interval alone, so the move after a click is
  dropped or recorded exactly as it would have been without the click.
\<close>

theorem move_rate_limited_click_not:
  "(t - m_last_sample_time s < m_sample_rate s \<longrightarrow> on_move x y t s = Inr s)
   \<and> (\<not> t - m_last_sample_time s < m_sample_rate s \<longrightarrow>
        (\<exists>v. 0 \<le> v \<and> on_move x y t s =
           Inr (s\<lparr>m_data := m_data s @ [\<lparr>e_x = x, e_y = y, e_speed = v, e_click = False,
                                          e_timestamp = t\<rparr>],
                  m_last_position := (x, y), m_last_timestamp := t,
                  m_last_sample_time := t\<rparr>)))
   \<and> on_click x y btn False t s = Inr s
   \<and> (\<exists>v. 0 \<le> v \<and> on_click x y btn True t s =
           Inr (s\<lparr>m_data := m_data s @ [\<lparr>e_x = x, e_y = y, e_speed = v, e_click = True,
                                          e_timestamp = t\<rparr>],
                  m_last_position := (x, y), m_last_timestamp := t\<rparr>))
   \<and> (\<exists>s'. on_click x y btn True t s = Inr s'
         \<and> m_last_sample_time s' = m_last_sample_time s
         \<and> m_sample_rate s' = m_sample_rate s
         \<and> (t' - m_last_sample_time s < m_sample_rate s \<longrightarrow> on_move x' y' t' s' = Inr s')
         \<and> (\<not> t' - m_last_sample_time s < m_sample_rate s \<longrightarrow>
              (\<exists>s''. on_move x' y' t' s' = Inr s''
                 \<and> length (m_data s'') = Suc (length (m_data s'))
                 \<and> m_last_sample_time s'' = t')))"
proof -
  let ?v = "py_round (speed_value s x y t) 2"
  have v: "0 \<le> ?v" by (simp add: py_round_nonneg speed_value_nonneg)
  have limited: "t - m_last_sample_time s < m_sample_rate s \<longrightarrow> on_move x y t s = Inr s"
    by (simp add: on_move_result)
  have accepted: "\<not> t - m_last_sample_time s < m_sample_rate s \<longrightarrow>
        (\<exists>v. 0 \<le> v \<and> on_move x y t s =
           Inr (s\<lparr>m_data := m_data s @ [\<lparr>e_x = x, e_y = y, e_speed = v, e_click = False,
                                          e_timestamp = t\<rparr>],
                  m_last_position := (x, y), m_last_timestamp := t,
                  m_last_sample_time := t\<rparr>))"
    using v by (auto simp add: on_move_result intro!: exI[of _ ?v])
  have release: "on_click x y btn False t s = Inr s"
    by (simp add: on_click_result)
  have press: "\<exists>v. 0 \<le> v \<and> on_click x y btn True t s =
           Inr (s\<lparr>m_data := m_data s @ [\<lparr>e_x = x, e_y = y, e_speed = v, e_click = True,
                                          e_timestamp = t\<rparr>],
                  m_last_position := (x, y), m_last_timestamp := t\<rparr>)"
    using v by (auto simp add: on_click_result intro!: exI[of _ ?v])
  have after: "\<exists>s'. on_click x y btn True t s = Inr s'
         \<and> m_last_sample_time s' = m_last_sample_time s
         \<and> m_sample_rate s' = m_sample_rate s
         \<and> (t' - m_last_sample_time s < m_sample_rate s \<longrightarrow> on_move x' y' t' s' = Inr s')
         \<and> (\<not> t' - m_last_sample_time s < m_sample_rate s \<longrightarrow>
              (\<exists>s''. on_move x' y' t' s' = Inr s''
                 \<and> length (m_data s'') = Suc (length (m_data s'))
                 \<and> m_last_sample_time s'' = t'))"
    by (simp add: on_move_result on_click_result)
  show ?thesis using limited accepted release press after by (intro conjI)
qed

text \<open>The theorem one second after a start, at the default interval: a move 0.01 s after
  the accepted sample is dropped, a click at that time is recorded, and the move 0.06 s
  after the sample is recorded although the click came 0.05 s before it.\<close>

theorem move_rate_limited_click_not_witness:
  "101 / 100 - m_last_sample_time
      \<lparr>m_data = [\<lparr>e_x = 0, e_y = 0, e_speed = 0, e_click = False, e_timestamp = 1\<rparr>],
       m_listener = Some (Listener True), m_is_running = True, m_sample_rate = 5 / 100,
       m_last_sample_time = 1, m_last_position = (0, 0), m_last_timestamp = 1\<rparr> < 5 / 100
   \<and> on_move 0 0 (101 / 100)
      \<lparr>m_data = [\<lparr>e_x = 0, e_y = 0, e_speed = 0, e_click = False, e_timestamp = 1\<rparr>],
       m_listener = Some (Listener True), m_is_running = True, m_sample_rate = 5 / 100,
       m_last_sample_time = 1, m_last_position = (0, 0), m_last_timestamp = 1\<rparr> =
     Inr \<lparr>m_data = [\<lparr>e_x = 0, e_y = 0, e_speed = 0, e_click = False, e_timestamp = 1\<rparr>],
       m_listener = Some (Listener True), m_is_running = True, m_sample_rate = 5 / 100,
       m_last_sample_time = 1, m_last_position = (0, 0), m_last_timestamp = 1\<rparr>
   \<and> on_click 3 4 ButtonLeft True (101 / 100)
      \<lparr>m_data = [\<lparr>e_x = 0, e_y = 0, e_speed = 0, e_click = False, e_timestamp = 1\<rparr>],
       m_listener = Some (Listener True), m_is_running = True, m_sample_rate = 5 / 100,
       m_last_sample_time = 1, m_last_position = (0, 0), m_last_timestamp = 1\<rparr> =
     Inr \<lparr>m_data = [\<lparr>e_x = 0, e_y = 0, e_speed = 0, e_click = False, e_timestamp = 1\<rparr>,
                     \<lparr>e_x = 3, e_y = 4, e_speed = 500, e_click = True, e_timestamp = 101 / 100\<rparr>],
       m_listener = Some (Listener True), m_is_running = True, m_sample_rate = 5 / 100,
       m_last_sample_time = 1, m_last_position = (3, 4), m_last_timestamp = 101 / 100\<rparr>
   \<and> on_move 3 4 (106 / 100)
      \<lparr>m_data = [\<lparr>e_x = 0, e_y = 0, e_speed = 0, e_click = False, e_timestamp = 1\<rparr>,
                     \<lparr>e_x = 3, e_y = 4, e_speed = 500, e_click = True, e_timestamp = 101 / 100\<rparr>],
       m_listener = Some (Listener True), m_is_running = True, m_sample_rate = 5 / 100,
       m_last_sample_time = 1, m_last_position = (3, 4), m_last_timestamp = 101 / 100\<rparr> =
     Inr \<lparr>m_data = [\<lparr>e_x = 0, e_y = 0, e_speed = 0, e_click = False, e_timestamp = 1\<rparr>,
                     \<lparr>e_x = 3, e_y = 4, e_speed = 500, e_click = True, e_timestamp = 101 / 100\<rparr>,
                     \<lparr>e_x = 3, e_y = 4, e_speed = 0, e_click = False, e_timestamp = 106 / 100\<rparr>],
       m_listener = Some (Listener True), m_is_running = True, m_sample_rate = 5 / 100,
       m_last_sample_time = 106 / 100, m_last_position = (3, 4), m_last_timestamp = 106 / 100\<rparr>"
proof -
  let ?m = "\<lparr>m_data = [\<lparr>e_x = 0, e_y = 0, e_speed = 0, e_click = False, e_timestamp = 1\<rparr>],
       m_listener = Some (Listener True), m_is_running = True, m_sample_rate = 5 / 100,
       m_last_sample_time = 1, m_last_position = (0, 0), m_last_timestamp = 1\<rparr>"
  have lim: "101 / 100 - m_last_sample_time ?m < m_sample_rate ?m" by simp
  have mv: "on_move 0 0 (101 / 100) ?m = Inr ?m"
    using move_rate_limited_click_not[of "101 / 100" ?m 0 0 ButtonLeft "106 / 100" 3 4] lim
    by simp
  have ck: "on_click 3 4 ButtonLeft True (101 / 100) ?m =
     Inr \<lparr>m_data = [\<lparr>e_x = 0, e_y = 0, e_speed = 0, e_click = False, e_timestamp = 1\<rparr>,
                     \<lparr>e_x = 3, e_y = 4, e_speed = 500, e_click = True, e_timestamp = 101 / 100\<rparr>],
       m_listener = Some (Listener True), m_is_running = True, m_sample_rate = 5 / 100,
       m_last_sample_time = 1, m_last_position = (3, 4), m_last_timestamp = 101 / 100\<rparr>"
    by (simp add: logger_eval sqrt_25)
  have nx: "on_move 3 4 (106 / 100)
      \<lparr>m_data = [\<lparr>e_x = 0, e_y = 0, e_speed = 0, e_click = False, e_timestamp = 1\<rparr>,
                     \<lparr>e_x = 3, e_y = 4, e_speed = 500, e_click = True, e_timestamp = 101 / 100\<rparr>],
       m_listener = Some (Listener True), m_is_running = True, m_sample_rate = 5 / 100,
       m_last_sample_time = 1, m_last_position = (3, 4), m_last_timestamp = 101 / 100\<rparr> =
     Inr \<lparr>m_data = [\<lparr>e_x = 0, e_y = 0, e_speed = 0, e_click = False, e_timestamp = 1\<rparr>,
                     \<lparr>e_x = 3, e_y = 4, e_speed = 500, e_click = True, e_timestamp = 101 / 100\<rparr>,
                     \<lparr>e_x = 3, e_y = 4, e_speed = 0, e_click = False, e_timestamp = 106 / 100\<rparr>],
       m_listener = Some (Listener True), m_is_running = True, m_sample_rate = 5 / 100,
       m_last_sample_time = 106 / 100, m_last_position = (3, 4), m_last_timestamp = 106 / 100\<rparr>"
    by (simp add: logger_eval)
  show ?thesis using mv ck nx by simp
qed

text \<open>
  C6, as stated, fails: \<^verbatim>\<open>start\<close> does not reset the last position. A logger that was
  started, received a move to \<open>(5, 7)\<close> and was stopped still has \<open>(5, 7)\<close> as its last
  position after the next start.
\<close>

theorem start_keeps_last_position_counterexample:
  "on_move 5 7 1 (snd (start Installed (init_logger default_sample_rate))) =
     Inr \<lparr>m_data = [\<lparr>e_x = 5, e_y = 7, e_speed = 0, e_click = False, e_timestamp = 1\<rparr>],
          m_listener = Some (Listener True), m_is_running = True, m_sample_rate = 5 / 100,
          m_last_sample_time = 1, m_last_position = (5, 7), m_last_timestamp = 1\<rparr>
   \<and> start Installed
       (stop \<lparr>m_data = [\<lparr>e_x = 5, e_y = 7, e_speed = 0, e_click = False, e_timestamp = 1\<rparr>],
          m_listener = Some (Listener True), m_is_running = True, m_sample_rate = 5 / 100,
          m_last_sample_time = 1, m_last_position = (5, 7), m_last_timestamp = 1\<rparr>) =
     (None,
      \<lparr>m_data = [\<lparr>e_x = 5, e_y = 7, e_speed = 0, e_click = False, e_timestamp = 1\<rparr>],
          m_listener = Some (Listener True), m_is_running = True, m_sample_rate = 5 / 100,
          m_last_sample_time = 0, m_last_position = (5, 7), m_last_timestamp = 0\<rparr>)"
  by (simp add: logger_eval default_sample_rate_def)

text \<open>
  C6, amended. \<^verbatim>\<open>start\<close> on a running logger changes nothing. On a logger that is not
  running (the hook being installed) it sets the running flag, keeps the listener, and
  resets the last timestamp and the last sample time to 0; the last position is left as
  it was, and the next speed computed is 0 whatever that position is. A second
  \<^verbatim>\<open>start\<close> changes nothing.
\<close>

theorem start_resets_timestamps:
  "(m_is_running s \<longrightarrow> start h s = (None, s))
   \<and> (\<not> m_is_running s \<longrightarrow>
        start Installed s =
          (None, s\<lparr>m_is_running := True, m_last_timestamp := 0, m_last_sample_time := 0,
                   m_listener := Some (Listener True)\<rparr>)
        \<and> m_last_position (snd (start Installed s)) = m_last_position s
        \<and> calculate_speed (snd (start Installed s)) x y t = Inr 0)
   \<and> start h' (snd (start Installed s)) = (None, snd (start Installed s))"
  by (simp add: start_def calculate_speed_def Let_def)

text \<open>The theorem at a stopped logger with old timing state, and at a running one.\<close>

theorem start_resets_timestamps_witness:
  "\<not> m_is_running
      \<lparr>m_data = [], m_listener = None, m_is_running = False, m_sample_rate = 5 / 100,
       m_last_sample_time = 7, m_last_position = (5, 7), m_last_timestamp = 7\<rparr>
   \<and> start Installed
      \<lparr>m_data = [], m_listener = None, m_is_running = False, m_sample_rate = 5 / 100,
       m_last_sample_time = 7, m_last_position = (5, 7), m_last_timestamp = 7\<rparr> =
     (None,
      \<lparr>m_data = [], m_listener = Some (Listener True), m_is_running = True,
       m_sample_rate = 5 / 100,
       m_last_sample_time = 0, m_last_position = (5, 7), m_last_timestamp = 0\<rparr>)
   \<and> m_is_running
      \<lparr>m_data = [], m_listener = Some (Listener True), m_is_running = True,
       m_sample_rate = 5 / 100,
       m_last_sample_time = 3, m_last_position = (5, 7), m_last_timestamp = 3\<rparr>
   \<and> start Installed
      \<lparr>m_data = [], m_listener = Some (Listener True), m_is_running = True,
       m_sample_rate = 5 / 100,
       m_last_sample_time = 3, m_last_position = (5, 7), m_last_timestamp = 3\<rparr> =
     (None,
      \<lparr>m_data = [], m_listener = Some (Listener True), m_is_running = True,
       m_sample_rate = 5 / 100,
       m_last_sample_time = 3, m_last_position = (5, 7), m_last_timestamp = 3\<rparr>)"
  using start_resets_timestamps[of
      "\<lparr>m_data = [], m_listener = None, m_is_running = False, m_sample_rate = 5 / 100,
       m_last_sample_time = 7, m_last_position = (5, 7), m_last_timestamp = 7\<rparr>"
      Installed 0 0 0 Installed]
    start_resets_timestamps[of
      "\<lparr>m_data = [], m_listener = Some (Listener True), m_is_running = True,
       m_sample_rate = 5 / 100,
       m_last_sample_time = 3, m_last_position = (5, 7), m_last_timestamp = 3\<rparr>"
      Installed 0 0 0 Installed]
  by simp

text \<open>
  C5. The code at the failing input: a fresh logger whose listener cannot be created or
  started. The exception reaches the caller, but \<^verbatim>\<open>_is_running\<close> was set before the
  failing statement and stays set: \<^verbatim>\<open>is_running()\<close> is true after the failed start, and
  a later \<^verbatim>\<open>start\<close> with a working hook returns at once without installing anything.
\<close>

theorem failed_start_reports_running:
  "\<not> is_running (init_logger default_sample_rate)
   \<and> start ConstructorRaises (init_logger default_sample_rate) =
       (Some ListenerError,
        \<lparr>m_data = [], m_listener = None, m_is_running = True, m_sample_rate = 5 / 100,
         m_last_sample_time = 0, m_last_position = (0, 0), m_last_timestamp = 0\<rparr>)
   \<and> is_running (snd (start ConstructorRaises (init_logger default_sample_rate)))
   \<and> start StartRaises (init_logger default_sample_rate) =
       (Some ListenerError,
        \<lparr>m_data = [], m_listener = Some (Listener False), m_is_running = True,
         m_sample_rate = 5 / 100,
         m_last_sample_time = 0, m_last_position = (0, 0), m_last_timestamp = 0\<rparr>)
   \<and> is_running (snd (start StartRaises (init_logger default_sample_rate)))
   \<and> start Installed (snd (start ConstructorRaises (init_logger default_sample_rate))) =
       (None, snd (start ConstructorRaises (init_logger default_sample_rate)))"
  by (simp add: logger_eval default_sample_rate_def is_running_def)

section \<open>Properties of the hesitation ranking\<close>

lemma zone_step_eq:
  assumes "shape hm = [h, w]" "0 < w"
  shows "zone_step hm i zs = (if flat hm ! i > 0 then zs @ [zone_of hm i] else zs)"
  using assms by (simp add: zone_step_def np_unravel_index_def np_get_def zone_of_def Let_def)

lemma fold_zone_step:
  assumes "shape hm = [h, w]" "0 < w"
  shows "fold (zone_step hm) is zs = zs @ map (zone_of hm) (filter (\<lambda>i. flat hm ! i > 0) is)"
  by (induction "is" arbitrary: zs) (simp_all add: zone_step_eq[OF assms])

lemma sorted_wrt_slice: "sorted_wrt P xs \<Longrightarrow> sorted_wrt P (py_slice_to n xs)"
  by (simp add: py_slice_to_def sorted_wrt_take)

lemma set_slice: "set (py_slice_to n xs) \<subseteq> set xs"
  by (auto simp add: py_slice_to_def dest: in_set_takeD)

lemma desc_rev_argsort:
  assumes "sorted (map f idxs)"
  shows "sorted_wrt (\<lambda>i j. f j \<le> f i) (rev idxs)"
  using assms by (simp add: sorted_wrt_rev sorted_map)

lemma length_filter_take_desc:
  fixes f :: "nat \<Rightarrow> real"
  shows "sorted_wrt (\<lambda>i j. f j \<le> f i) xs \<Longrightarrow>
     length (filter (\<lambda>i. f i > 0) (take n xs)) = min n (length (filter (\<lambda>i. f i > 0) xs))"
proof (induction xs arbitrary: n)
  case Nil
  then show ?case by simp
next
  case (Cons a xs)
  show ?case
  proof (cases n)
    case 0
    then show ?thesis by simp
  next
    case (Suc m)
    show ?thesis
    proof (cases "f a > 0")
      case True
      then show ?thesis using Cons Suc by simp
    next
      case False
      have "\<forall>b \<in> set xs. \<not> f b > 0" using Cons.prems False by fastforce
      then have "filter (\<lambda>i. f i > 0) xs = []" "filter (\<lambda>i. f i > 0) (take m xs) = []"
        by (auto simp add: filter_empty_conv dest: in_set_takeD)
      then show ?thesis using False Suc by simp
    qed
  qed
qed

lemma length_filter_perm:
  assumes "distinct idxs" "set idxs = {0..<length a}"
  shows "length (filter (\<lambda>i. P (a ! i)) idxs) = length (filter P a)"
proof -
  have "length (filter (\<lambda>i. P (a ! i)) idxs) = card {i \<in> set idxs. P (a ! i)}"
    using assms(1) by (simp add: distinct_length_filter Int_def conj_commute)
  also have "\<dots> = card {i. i < length a \<and> P (a ! i)}"
    using assms(2) by simp
  also have "\<dots> = length (filter P a)"
    by (simp add: length_filter_conv_card)
  finally show ?thesis .
qed

lemma insort_key_then_index:
  "sorted_wrt (key_then_index f) ys \<Longrightarrow> (\<forall>y \<in> set ys. x < y) \<Longrightarrow>
     sorted_wrt (key_then_index f) (insort_key f x ys)"
proof (induction ys)
  case Nil
  then show ?case by simp
next
  case (Cons y ys)
  show ?case
  proof (cases "f x \<le> f y")
    case True
    have "\<forall>z \<in> set (y # ys). key_then_index f x z"
    proof
      fix z assume z: "z \<in> set (y # ys)"
      then have "f y \<le> f z" using Cons.prems(1) by (auto simp add: key_then_index_def)
      moreover have "x < z" using Cons.prems(2) z by auto
      ultimately show "key_then_index f x z" using True by (auto simp add: key_then_index_def)
    qed
    then show ?thesis using True Cons.prems(1) by simp
  next
    case False
    have tl: "sorted_wrt (key_then_index f) (insort_key f x ys)"
      using Cons by simp
    have "\<forall>z \<in> set (insort_key f x ys). key_then_index f y z"
      using Cons.prems(1) False by (auto simp add: set_insort_key key_then_index_def)
    then show ?thesis using False tl by simp
  qed
qed

lemma sort_key_then_index:
  "sorted_wrt (<) xs \<Longrightarrow> sorted_wrt (key_then_index f) (sort_key f xs)"
proof (induction xs)
  case Nil
  then show ?case by simp
next
  case (Cons x xs)
  have "\<forall>y \<in> set (sort_key f xs). x < y" using Cons.prems by simp
  then show ?case using Cons by (simp add: insort_key_then_index)
qed

lemma stable_argsort_order: "sorted_wrt (key_then_index (\<lambda>i. a ! i)) (stable_argsort a)"
  unfolding stable_argsort_def by (rule sort_key_then_index) (simp add: sorted_wrt_upt)

lemma stable_argsort_is_argsort: "is_argsort a (stable_argsort a)"
  by (simp add: is_argsort_def stable_argsort_def)

lemma stable_zones_order:
  assumes "shape (hesitation_map pd) = [h, w]" "np_size (hesitation_map pd) \<noteq> 0"
  shows "sorted_wrt (\<lambda>p q. snd (snd q) < snd (snd p)
            \<or> (snd (snd q) = snd (snd p) \<and> fst (snd q) * w + fst q < fst (snd p) * w + fst p))
          (get_hesitation_zones stable_argsort pd top_n)"
proof -
  let ?hm = "hesitation_map pd"
  let ?a = "flat ?hm"
  let ?L = "key_then_index (\<lambda>i. ?a ! i)"
  have w: "0 < w" using assms by (simp add: np_size_def)
  have eq: "get_hesitation_zones stable_argsort pd top_n =
      map (zone_of ?hm) (filter (\<lambda>i. ?a ! i > 0) (py_slice_to top_n (rev (stable_argsort ?a))))"
    using assms(2) fold_zone_step[OF assms(1) w, of "py_slice_to top_n (rev (stable_argsort ?a))" "[]"]
    by (simp add: get_hesitation_zones_def Let_def)
  have "sorted_wrt (\<lambda>i j. ?L j i) (rev (stable_argsort ?a))"
    using stable_argsort_order[of ?a] by (simp add: sorted_wrt_rev)
  then have "sorted_wrt (\<lambda>i j. ?L j i) (py_slice_to top_n (rev (stable_argsort ?a)))"
    by (rule sorted_wrt_slice)
  then have s: "sorted_wrt (\<lambda>i j. ?L j i)
      (filter (\<lambda>i. ?a ! i > 0) (py_slice_to top_n (rev (stable_argsort ?a))))"
    by (rule sorted_wrt_filter)
  let ?Q = "\<lambda>p q. snd (snd q) < snd (snd p)
            \<or> (snd (snd q) = snd (snd p) \<and> fst (snd q) * w + fst q < fst (snd p) * w + fst p)"
  have step: "\<And>i j. ?L j i \<Longrightarrow> ?Q (zone_of ?hm i) (zone_of ?hm j)"
    using assms(1) by (simp add: zone_of_def key_then_index_def)
  have "sorted_wrt (\<lambda>i j. ?Q (zone_of ?hm i) (zone_of ?hm j))
      (filter (\<lambda>i. ?a ! i > 0) (py_slice_to top_n (rev (stable_argsort ?a))))"
    using s step by (rule sorted_wrt_mono_rel[rotated])
  then show ?thesis
    by (simp only: eq sorted_wrt_map)
qed

lemma sqrt_40000: "sqrt 40000 = 200"
proof -
  have "sqrt ((200::real) ^ 2) = 200" by (simp only: real_sqrt_abs)
  then show ?thesis by simp
qed

lemmas zones_eval = get_hesitation_zones_def zone_step_def np_unravel_index_def np_get_def
  np_size_def py_slice_to_def Let_def

lemma upt_2: "[0..<2] = [0, Suc 0]"
  by code_simp

lemma upt_4: "[0..<4] = [0, 1, 2, 3]"
  by code_simp

text \<open>
  C3, as stated, fails in its tie rule. The zones come out in the reverse of the order
  \<^verbatim>\<open>np.argsort\<close> returns, so with an argsort that keeps equal values in index order
  two cells of equal dwell appear with the higher flattened index first: for the stream
  below, cell \<open>(gridX, gridY) = (0, 1)\<close> comes before cell \<open>(0, 0)\<close>.
\<close>

theorem zones_tie_order_counterexample:
  "process_data
     [\<lparr>e_x = 0, e_y = 0, e_speed = 0, e_click = False, e_timestamp = 0\<rparr>,
      \<lparr>e_x = 0, e_y = 0, e_speed = 0, e_click = False, e_timestamp = 1\<rparr>,
      \<lparr>e_x = 0, e_y = 200, e_speed = 0, e_click = False, e_timestamp = 2\<rparr>] 200 =
   Inr \<lparr>heatmap = \<lparr>shape = [2, 1], flat = [2, 1]\<rparr>,
      hesitation_map = \<lparr>shape = [2, 1], flat = [1, 1]\<rparr>,
      speed_data = [0, 0, 0], click_positions = [], path = [(0, 0), (0, 0), (0, 200)],
      stats = \<lparr>total_events = 3, total_clicks = 0, avg_speed = 0, max_speed = 0, min_speed = 0,
         speed_std = 0, duration = 2, distance_traveled = 200, acceleration_bursts = 0\<rparr>,
      grid_size = 200, bounds = (0, 0, 50, 250)\<rparr>
   \<and> stable_argsort [1, 1] = [0, 1]
   \<and> is_argsort [1, 1] (stable_argsort [1, 1])
   \<and> get_hesitation_zones stable_argsort
       \<lparr>heatmap = \<lparr>shape = [2, 1], flat = [2, 1]\<rparr>,
        hesitation_map = \<lparr>shape = [2, 1], flat = [1, 1]\<rparr>,
        speed_data = [0, 0, 0], click_positions = [], path = [(0, 0), (0, 0), (0, 200)],
        stats = \<lparr>total_events = 3, total_clicks = 0, avg_speed = 0, max_speed = 0, min_speed = 0,
           speed_std = 0, duration = 2, distance_traveled = 200, acceleration_bursts = 0\<rparr>,
        grid_size = 200, bounds = (0, 0, 50, 250)\<rparr> 5 =
     [(0, 1, 1), (0, 0, 1)]"
proof (intro conjI)
  show "process_data
     [\<lparr>e_x = 0, e_y = 0, e_speed = 0, e_click = False, e_timestamp = 0\<rparr>,
      \<lparr>e_x = 0, e_y = 0, e_speed = 0, e_click = False, e_timestamp = 1\<rparr>,
      \<lparr>e_x = 0, e_y = 200, e_speed = 0, e_click = False, e_timestamp = 2\<rparr>] 200 =
   Inr \<lparr>heatmap = \<lparr>shape = [2, 1], flat = [2, 1]\<rparr>,
      hesitation_map = \<lparr>shape = [2, 1], flat = [1, 1]\<rparr>,
      speed_data = [0, 0, 0], click_positions = [], path = [(0, 0), (0, 0), (0, 200)],
      stats = \<lparr>total_events = 3, total_clicks = 0, avg_speed = 0, max_speed = 0, min_speed = 0,
         speed_std = 0, duration = 2, distance_traveled = 200, acceleration_bursts = 0\<rparr>,
      grid_size = 200, bounds = (0, 0, 50, 250)\<rparr>"
    by (simp add: proc_eval eval_nat_numeral calculate_stats_def detect_acceleration_def
        distance_step_def np_mean_def np_max_def np_min_def np_std_def sqrt_40000)
  show a: "stable_argsort [1, 1] = [0, 1]"
    by (simp add: stable_argsort_def upt_2)
  show "is_argsort [1, 1] (stable_argsort [1, 1])"
    unfolding a by (simp add: is_argsort_def set_eq_iff) arith
  show "get_hesitation_zones stable_argsort
       \<lparr>heatmap = \<lparr>shape = [2, 1], flat = [2, 1]\<rparr>,
        hesitation_map = \<lparr>shape = [2, 1], flat = [1, 1]\<rparr>,
        speed_data = [0, 0, 0], click_positions = [], path = [(0, 0), (0, 0), (0, 200)],
        stats = \<lparr>total_events = 3, total_clicks = 0, avg_speed = 0, max_speed = 0, min_speed = 0,
           speed_std = 0, duration = 2, distance_traveled = 200, acceleration_bursts = 0\<rparr>,
        grid_size = 200, bounds = (0, 0, 50, 250)\<rparr> 5 =
     [(0, 1, 1), (0, 0, 1)]"
    by (simp add: zones_eval a)
qed

text \<open>
  C3, amended. On an empty grid the result is empty. On a grid of shape \<open>(h, w)\<close>, for
  any argsort that returns the indices of the flattened grid in ascending order of value:
  the result is the reversed argsort order cut to its first \<open>top_n\<close> entries, without the
  entries whose dwell is not positive, each index \<open>i\<close> mapped to
  \<open>(i mod w, i div w, dwell)\<close>. So the zones are sorted by dwell, descending, cells of
  equal dwell in the reverse of the order argsort gave them; every zone has a positive
  dwell, lies inside the grid and carries the dwell of its cell; and for \<open>top_n \<ge> 0\<close>
  there are \<open>min top_n p\<close> zones, \<open>p\<close> the number of cells with positive dwell.
  With the argsort that keeps equal values in index order, two zones of equal dwell come
  with the higher flattened index \<open>gridY * w + gridX\<close> first.
\<close>

theorem hesitation_zones_ranked:
  "(np_size (hesitation_map pd) = 0 \<longrightarrow> get_hesitation_zones argsort pd top_n = [])
   \<and> (shape (hesitation_map pd) = [h, w]
      \<and> length (flat (hesitation_map pd)) = h * w
      \<and> is_argsort (flat (hesitation_map pd)) (argsort (flat (hesitation_map pd))) \<longrightarrow>
        get_hesitation_zones argsort pd top_n =
          map (\<lambda>i. (i mod w, i div w, flat (hesitation_map pd) ! i))
            (filter (\<lambda>i. flat (hesitation_map pd) ! i > 0)
               (py_slice_to top_n (rev (argsort (flat (hesitation_map pd))))))
        \<and> sorted_wrt (\<lambda>a b. snd (snd b) \<le> snd (snd a)) (get_hesitation_zones argsort pd top_n)
        \<and> (\<forall>(x, y, d) \<in> set (get_hesitation_zones argsort pd top_n).
              0 < d \<and> x < w \<and> y < h \<and> d = np_get (hesitation_map pd) y x)
        \<and> (0 \<le> top_n \<longrightarrow>
              length (get_hesitation_zones argsort pd top_n) =
                min (nat top_n) (length (filter (\<lambda>v. 0 < v) (flat (hesitation_map pd))))))
   \<and> (shape (hesitation_map pd) = [h, w] \<and> np_size (hesitation_map pd) \<noteq> 0 \<longrightarrow>
        sorted_wrt (\<lambda>p q. snd (snd q) < snd (snd p)
            \<or> (snd (snd q) = snd (snd p) \<and> fst (snd q) * w + fst q < fst (snd p) * w + fst p))
          (get_hesitation_zones stable_argsort pd top_n))"
proof (intro conjI impI)
  assume "np_size (hesitation_map pd) = 0"
  then show "get_hesitation_zones argsort pd top_n = []"
    by (simp add: get_hesitation_zones_def)
next
  let ?hm = "hesitation_map pd"
  let ?a = "flat ?hm"
  let ?idxs = "argsort ?a"
  let ?pos = "\<lambda>i. ?a ! i > 0"
  let ?sel = "filter ?pos (py_slice_to top_n (rev ?idxs))"
  let ?zs = "get_hesitation_zones argsort pd top_n"
  assume H: "shape ?hm = [h, w] \<and> length ?a = h * w \<and> is_argsort ?a ?idxs"
  then have shp: "shape ?hm = [h, w]" and len: "length ?a = h * w"
    and dist: "distinct ?idxs" and st: "set ?idxs = {0..<length ?a}"
    and srt: "sorted (map (\<lambda>i. ?a ! i) ?idxs)"
    by (simp_all add: is_argsort_def)
  have zone: "zone_of ?hm = (\<lambda>i. (i mod w, i div w, ?a ! i))"
    using shp by (simp add: zone_of_def fun_eq_iff)
  have eq: "?zs = map (\<lambda>i. (i mod w, i div w, ?a ! i)) ?sel"
  proof (cases "np_size ?hm = 0")
    case True
    then have "h * w = 0" using shp by (simp add: np_size_def)
    then have "?idxs = []" using st len by simp
    then show ?thesis using True by (simp add: get_hesitation_zones_def py_slice_to_def)
  next
    case False
    then have w: "0 < w" using shp by (simp add: np_size_def)
    show ?thesis
      using False fold_zone_step[OF shp w, of "py_slice_to top_n (rev ?idxs)" "[]"]
      by (simp add: get_hesitation_zones_def Let_def zone)
  qed
  show "?zs = map (\<lambda>i. (i mod w, i div w, ?a ! i)) ?sel" by (rule eq)
  have desc: "sorted_wrt (\<lambda>i j. ?a ! j \<le> ?a ! i) (py_slice_to top_n (rev ?idxs))"
    using desc_rev_argsort[OF srt] by (rule sorted_wrt_slice)
  have "sorted_wrt (\<lambda>i j. ?a ! j \<le> ?a ! i) ?sel"
    using desc by (rule sorted_wrt_filter)
  then show "sorted_wrt (\<lambda>a b. snd (snd b) \<le> snd (snd a)) ?zs"
    unfolding eq by (simp add: sorted_wrt_map)
  have inr: "\<forall>i \<in> set ?sel. i < h * w \<and> 0 < ?a ! i"
  proof
    fix i assume i: "i \<in> set ?sel"
    then have m: "i \<in> set (py_slice_to top_n (rev ?idxs))" and p: "0 < ?a ! i" by simp_all
    have "i \<in> set (rev ?idxs)" using set_slice m by (rule subsetD)
    then have "i \<in> {0..<length ?a}" using st by simp
    then show "i < h * w \<and> 0 < ?a ! i" using p len by simp
  qed
  show "\<forall>(x, y, d) \<in> set ?zs. 0 < d \<and> x < w \<and> y < h \<and> d = np_get ?hm y x"
  proof
    fix z assume "z \<in> set ?zs"
    then have "z \<in> (\<lambda>i. (i mod w, i div w, ?a ! i)) ` set ?sel"
      by (simp only: eq set_map)
    then obtain i where isel: "i \<in> set ?sel" and z: "z = (i mod w, i div w, ?a ! i)"
      by (rule imageE)
    from inr isel have i: "i < h * w" and p: "0 < ?a ! i"
      by (simp_all only: bspec[OF inr isel])
    from i have w: "0 < w" by (cases w) simp_all
    from i have dv: "i div w < h" by (simp add: less_mult_imp_div_less mult.commute)
    have md: "i mod w < w" using w by simp
    have "np_get ?hm (i div w) (i mod w) = ?a ! i"
      using shp by (simp add: np_get_def)
    then show "case z of (x, y, d) \<Rightarrow> 0 < d \<and> x < w \<and> y < h \<and> d = np_get ?hm y x"
      using p dv md by (simp add: z)
  qed
  assume n: "0 \<le> top_n"
  have d': "distinct (rev ?idxs)" using dist by simp
  have s': "set (rev ?idxs) = {0..<length ?a}" using st by simp
  have "length ?zs = length (filter ?pos (take (nat top_n) (rev ?idxs)))"
    using n by (simp add: eq py_slice_to_def)
  also have "\<dots> = min (nat top_n) (length (filter ?pos (rev ?idxs)))"
    using desc_rev_argsort[OF srt] by (rule length_filter_take_desc)
  also have "length (filter ?pos (rev ?idxs)) = length (filter (\<lambda>v. 0 < v) ?a)"
    using d' s' by (rule length_filter_perm)
  finally show "length ?zs = min (nat top_n) (length (filter (\<lambda>v. 0 < v) ?a))" .
next
  assume "shape (hesitation_map pd) = [h, w] \<and> np_size (hesitation_map pd) \<noteq> 0"
  then show "sorted_wrt (\<lambda>p q. snd (snd q) < snd (snd p)
            \<or> (snd (snd q) = snd (snd p) \<and> fst (snd q) * w + fst q < fst (snd p) * w + fst p))
          (get_hesitation_zones stable_argsort pd top_n)"
    using stable_zones_order[of pd h w top_n] by simp
qed

text \<open>The theorem at a two-by-two grid with two positive cells, and at the empty grid.\<close>

theorem hesitation_zones_ranked_witness:
  "shape \<lparr>shape = [2, 2], flat = [0, 3, 1, 0]\<rparr> = [2, 2]
   \<and> length (flat \<lparr>shape = [2, 2], flat = [0, 3, 1, 0]\<rparr>) = 2 * 2
   \<and> stable_argsort [0, 3, 1, 0] = [0, 3, 2, 1]
   \<and> is_argsort [0, 3, 1, 0] (stable_argsort [0, 3, 1, 0])
   \<and> (0::int) \<le> 5
   \<and> get_hesitation_zones stable_argsort
       \<lparr>heatmap = \<lparr>shape = [2, 2], flat = [1, 2, 1, 0]\<rparr>,
        hesitation_map = \<lparr>shape = [2, 2], flat = [0, 3, 1, 0]\<rparr>,
        speed_data = [], click_positions = [], path = [],
        stats = empty_stats, grid_size = 50, bounds = (0, 0, 50, 50)\<rparr> 5 =
     [(1, 0, 3), (0, 1, 1)]
   \<and> np_size np_empty = 0
   \<and> get_hesitation_zones stable_argsort
       \<lparr>heatmap = np_empty, hesitation_map = np_empty,
        speed_data = [], click_positions = [], path = [],
        stats = empty_stats, grid_size = 50, bounds = (0, 0, 1920, 1080)\<rparr> 5 = []"
proof -
  let ?pd = "\<lparr>heatmap = \<lparr>shape = [2, 2], flat = [1, 2, 1, 0]\<rparr>,
        hesitation_map = \<lparr>shape = [2, 2], flat = [0, 3, 1, 0]\<rparr>,
        speed_data = [], click_positions = [], path = [],
        stats = empty_stats, grid_size = 50, bounds = (0, 0, 50, 50)\<rparr>"
  let ?empty = "\<lparr>heatmap = np_empty, hesitation_map = np_empty,
        speed_data = [], click_positions = [], path = [],
        stats = empty_stats, grid_size = 50, bounds = (0, 0, 1920, 1080)\<rparr>"
  have a: "stable_argsort [0, 3, 1, 0] = [0, 3, 2, 1]"
    by (simp add: stable_argsort_def upt_4)
  have b: "is_argsort [0, 3, 1, 0] (stable_argsort [0, 3, 1, 0])"
    unfolding a by (simp add: is_argsort_def set_eq_iff) arith
  have e: "np_size np_empty = 0"
    by (simp add: np_size_def np_empty_def)
  have z: "get_hesitation_zones stable_argsort ?pd 5 = [(1, 0, 3), (0, 1, 1)]"
    using hesitation_zones_ranked[of ?pd stable_argsort 5 2 2] b
    by (simp add: a py_slice_to_def)
  have z0: "get_hesitation_zones stable_argsort ?empty 5 = []"
    using hesitation_zones_ranked[of ?empty stable_argsort 5 0 0] e
    by simp
  show ?thesis using a b e z z0 by simp
qed

end
